theory Spec2Isabelle
  imports Complex_Main "HOL-Library.Word"
begin

unbundle bit_operations_syntax

section \<open>Data model of uridiag.c\<close>

text \<open>
  The program talks to a CM108/CM119 USB sound chip through 4-byte HID reports and,
  through the chip, to an AT93C46 EEPROM of 64 sixteen-bit words. \<open>unsigned char\<close> is
  an 8-bit word, \<open>unsigned short\<close> a 16-bit word. The \<open>usleep\<close> calls of the source
  have no counterpart here: time is not modelled.
\<close>

type_synonym u8 = "8 word"
type_synonym u16 = "16 word"

definition C108AH_PRODUCT_ID :: int where "C108AH_PRODUCT_ID = 0x013c"
definition C119_PRODUCT_ID :: int where "C119_PRODUCT_ID = 0x0008"
definition C119B_PRODUCT_ID :: int where "C119B_PRODUCT_ID = 0x0013"

definition EEPROM_START_ADDR :: nat where "EEPROM_START_ADDR = 51"
definition EEPROM_MAGIC :: u16 where "EEPROM_MAGIC = 34329"
definition EEPROM_USER_MAGIC_ADDR :: nat where "EEPROM_USER_MAGIC_ADDR = 0"
definition EEPROM_USER_SPARE :: nat where "EEPROM_USER_SPARE = 11"
definition EEPROM_USER_CS_ADDR :: nat where "EEPROM_USER_CS_ADDR = 12"

text \<open>The table \<open>unsigned short cm119b_manufacturer_data[51]\<close>.\<close>

definition cm119b_manufacturer_data :: "u16 list" where
  "cm119b_manufacturer_data =
    [0x670d, 0x0d8c, 0x0013, 0x0000, 0x0000,
     0x0000, 0x0000, 0x0000, 0x0000, 0x0000, 0x5522, 0x4253, 0x4120, 0x6475, 0x6f69,
     0x4420, 0x7665, 0x6369, 0x0065, 0x0000, 0x0000, 0x0000, 0x0000, 0x0000, 0x0000,
     0x0000, 0x4332, 0x4d2d, 0x6465, 0x6169, 0x4520, 0x656c, 0x7463, 0x6f72, 0x696e,
     0x7363, 0x4920, 0x636e, 0x002e, 0x0000, 0x0000, 0x0000, 0x14c8, 0xf21a, 0x0000,
     0x0000, 0x0000, 0x0000, 0x0000, 0x0000, 0x0000]"

text \<open>\<open>enum { DEV_C108, DEV_C108AH, DEV_C119 }\<close>, the value of the global \<open>devtype\<close>.\<close>

datatype devtype = DEV_C108 | DEV_C108AH | DEV_C119

text \<open>
  How \<open>device_init\<close> sets \<open>devtype\<close> from the product identifier of the device found:
  every product but the CM108AH and the CM119 is handled as \<open>DEV_C108\<close>.
\<close>

definition device_init_devtype :: "int \<Rightarrow> devtype" where
  "device_init_devtype idProduct =
     (if idProduct = C108AH_PRODUCT_ID then DEV_C108AH
      else if idProduct = C119_PRODUCT_ID then DEV_C119
      else DEV_C108)"

text \<open>\<open>unsigned char buf[4]\<close>: one HID report.\<close>

record hid_report =
  byte0 :: u8
  byte1 :: u8
  byte2 :: u8
  byte3 :: u8

text \<open>
  A C array seen through a pointer: the list holds the words of the array the caller
  allocated. C does not check an index against the extent of the array, and a read past
  the end returns whatever the memory after the array holds; \<open>past\<close> stands for that
  memory, indexed like the array.
\<close>

definition c_read :: "(nat \<Rightarrow> u16) \<Rightarrow> u16 list \<Rightarrow> nat \<Rightarrow> u16" where
  "c_read past xs i = (if i < length xs then xs ! i else past i)"

text \<open>
  \<open>put_eeprom\<close> and \<open>get_eeprom\<close> store into words 0 to 12 of their buffer, which the
  callers allocate; on a list shorter than that \<open>xs[i := v]\<close> leaves the list as it is,
  and the lemmas about the contents of a buffer assume its 13 words.
\<close>


section \<open>The device behind the handle\<close>

text \<open>
  One control transfer: an output report with its four bytes, or the request for an
  input report.
\<close>

datatype xfer = OutReport hid_report | InReport

text \<open>
  What a \<open>struct usb_dev_handle *\<close> gives access to. \<open>eeprom\<close> are the cells of the
  AT93C46, \<open>hid_ir\<close> is the input report the chip returns next, \<open>gpio_pins\<close> is the
  wiring outside the chip (the input report that shows once the GPIO direction byte and
  level byte are driven), \<open>wire\<close> is the log of the control transfers submitted, oldest
  first, and \<open>rcs\<close> the values the coming calls of \<open>usb_control_msg\<close> return (negative:
  the transfer failed); with \<open>rcs\<close> empty every transfer succeeds.
\<close>

record usb_dev_handle =
  eeprom :: "nat \<Rightarrow> u16"
  hid_ir :: hid_report
  gpio_pins :: "u8 \<Rightarrow> u8 \<Rightarrow> hid_report"
  wire :: "xfer list"
  rcs :: "int list"

definition next_rc :: "usb_dev_handle \<Rightarrow> int \<times> usb_dev_handle" where
  "next_rc h = (case rcs h of [] \<Rightarrow> (4, h) | r # rs \<Rightarrow> (r, h\<lparr>rcs := rs\<rparr>))"

text \<open>
  The chip's reaction to an output report, as the comments above \<open>read_eeprom\<close> and
  \<open>write_eeprom\<close> describe it: with first byte 0x80, a fourth byte 0xC0 or'd with an
  address stores bytes 1 (lsb) and 2 (msb) in that cell, and a fourth byte 0x80 or'd
  with an address makes the cell's two bytes the bytes 1 and 2 of the next input report.
  Any other report drives the GPIO lines (byte 2 the directions, byte 1 the levels).
\<close>

definition hid_set_report :: "usb_dev_handle \<Rightarrow> hid_report \<Rightarrow> usb_dev_handle" where
  "hid_set_report h r =
     (if byte0 r = 0x80 \<and> byte3 r AND 0xc0 = 0xc0 then
        h\<lparr>eeprom := (eeprom h)(unat (byte3 r AND 0x3f) :=
             ucast (byte1 r) + push_bit 8 (ucast (byte2 r)))\<rparr>
      else if byte0 r = 0x80 \<and> byte3 r AND 0xc0 = 0x80 then
        h\<lparr>hid_ir := (hid_ir h)\<lparr>byte1 := ucast (eeprom h (unat (byte3 r AND 0x3f))),
              byte2 := ucast (drop_bit 8 (eeprom h (unat (byte3 r AND 0x3f))))\<rparr>\<rparr>
      else h\<lparr>hid_ir := gpio_pins h (byte2 r) (byte1 r)\<rparr>)"

text \<open>
  \<open>usb_control_msg\<close> with \<open>HID_REPORT_SET\<close> and with \<open>HID_REPORT_GET\<close>: the
  transfer is logged and its return code taken from \<open>rcs\<close>. \<open>usb_control_msg\<close> belongs
  to libusb: what a failed transfer does to the chip and to the caller's buffer is not
  decided by the program; here it reaches neither.
\<close>

definition usb_control_msg_set :: "usb_dev_handle \<Rightarrow> hid_report \<Rightarrow> int \<times> usb_dev_handle" where
  "usb_control_msg_set h bytes =
     (let (r, h1) = next_rc (h\<lparr>wire := wire h @ [OutReport bytes]\<rparr>)
      in if r < 0 then (r, h1) else (r, hid_set_report h1 bytes))"

definition usb_control_msg_get ::
    "usb_dev_handle \<Rightarrow> hid_report \<Rightarrow> int \<times> hid_report \<times> usb_dev_handle" where
  "usb_control_msg_get h bytes =
     (let (r, h1) = next_rc (h\<lparr>wire := wire h @ [InReport]\<rparr>)
      in if r < 0 then (r, bytes, h1) else (r, hid_ir h1, h1))"


section \<open>Transport: set_outputs, get_inputs\<close>

text \<open>
  Both functions are \<open>void\<close> and drop what \<open>usb_control_msg\<close> returns: the model
  hands back the handle (and, for \<open>get_inputs\<close>, the buffer), never the return code.
\<close>

definition set_outputs :: "usb_dev_handle \<Rightarrow> hid_report \<Rightarrow> usb_dev_handle" where
  "set_outputs handle outputs = snd (usb_control_msg_set handle outputs)"

definition get_inputs :: "usb_dev_handle \<Rightarrow> hid_report \<Rightarrow> hid_report \<times> usb_dev_handle" where
  "get_inputs handle inputs = snd (usb_control_msg_get handle inputs)"


section \<open>GPIO: setout, getin\<close>

definition setout :: "devtype \<Rightarrow> usb_dev_handle \<Rightarrow> u8 \<Rightarrow> usb_dev_handle" where
  "setout dt usb_handle c =
     set_outputs usb_handle
       \<lparr>byte0 = 0, byte1 = c, byte2 = (if dt = DEV_C119 then 0x3d else 0xd), byte3 = 0\<rparr>"

text \<open>
  The arithmetic of \<open>getin\<close> on the report read: \<open>c\<close> is an \<open>unsigned short\<close>, the
  result is converted to \<open>unsigned char\<close>.
\<close>

definition getin_decode :: "devtype \<Rightarrow> hid_report \<Rightarrow> u8" where
  "getin_decode dt buf =
     (let c0 = (ucast (byte1 buf AND 0xf) :: u16);
          c1 = c0 + push_bit 4 (ucast (byte0 buf AND 3));
          c2 = (if dt = DEV_C119 then c1 + ucast (byte1 buf AND 0xc0) else c1);
          c3 = (if dt = DEV_C108AH
                then (let c = c2 AND 0xfd in if byte0 buf AND 0x10 = 0 then c + 2 else c)
                else c2)
      in ucast c3)"

text \<open>
  \<open>getin\<close> clears bytes 0 and 1 of its buffer before the transfer; bytes 2 and 3 are
  not initialised in the source and never read, the model gives them 0.
\<close>

definition getin :: "devtype \<Rightarrow> usb_dev_handle \<Rightarrow> u8 \<times> usb_dev_handle" where
  "getin dt usb_handle =
     (let (buf, h) = get_inputs usb_handle \<lparr>byte0 = 0, byte1 = 0, byte2 = 0, byte3 = 0\<rparr>
      in (getin_decode dt buf, h))"


section \<open>EEPROM protocol\<close>

text \<open>
  \<open>addr\<close> is a C \<open>int\<close>; only its low six bits are used, so its width plays no role.
\<close>

definition read_eeprom :: "usb_dev_handle \<Rightarrow> int \<Rightarrow> u16 \<times> usb_dev_handle" where
  "read_eeprom usb_handle addr =
     (let h1 = set_outputs usb_handle
                 \<lparr>byte0 = 0x80, byte1 = 0, byte2 = 0,
                  byte3 = word_of_int (0x80 OR (addr AND 0x3f))\<rparr>;
          (buf, h2) = get_inputs h1 \<lparr>byte0 = 0, byte1 = 0, byte2 = 0, byte3 = 0\<rparr>
      in (ucast (byte1 buf) + push_bit 8 (ucast (byte2 buf)), h2))"

definition write_eeprom :: "usb_dev_handle \<Rightarrow> int \<Rightarrow> u16 \<Rightarrow> usb_dev_handle" where
  "write_eeprom usb_handle addr data =
     set_outputs usb_handle
       \<lparr>byte0 = 0x80, byte1 = ucast (data AND 0xff), byte2 = ucast (drop_bit 8 data),
        byte3 = word_of_int (0xc0 OR (addr AND 0x3f))\<rparr>"

text \<open>
  \<open>get_eeprom\<close>: the loop \<open>for (i = 51; i <= 51 + 12; i++) cs += buf[i - 51] =
  read_eeprom(handle, i)\<close>. The buffer is written at \<open>i - 51\<close>, within the 13 words.
\<close>

function get_eeprom_loop ::
    "nat \<Rightarrow> u16 \<Rightarrow> u16 list \<Rightarrow> usb_dev_handle \<Rightarrow> u16 \<times> u16 list \<times> usb_dev_handle" where
  "get_eeprom_loop i cs buf handle =
     (if i \<le> EEPROM_START_ADDR + EEPROM_USER_CS_ADDR then
        (let (w, h) = read_eeprom handle (int i)
         in get_eeprom_loop (i + 1) (cs + w) (buf[i - EEPROM_START_ADDR := w]) h)
      else (cs, buf, handle))"
  by pat_completeness auto
termination
  by (relation "measure (\<lambda>(i, cs, buf, handle). 64 - i)")
     (auto simp: EEPROM_START_ADDR_def EEPROM_USER_CS_ADDR_def)

definition get_eeprom :: "usb_dev_handle \<Rightarrow> u16 list \<Rightarrow> u16 \<times> u16 list \<times> usb_dev_handle" where
  "get_eeprom handle buf = get_eeprom_loop EEPROM_START_ADDR 0xffff buf handle"

text \<open>
  \<open>put_eeprom\<close>: the loop \<open>for (i = 51; i < 51 + 12; i++)\<close> writes \<open>buf[i - 51]\<close> and adds
  \<open>buf[i]\<close> to the checksum; the index of the addition is \<open>i\<close>, not \<open>i - 51\<close>.
  \<open>(65535 - cs) + 1\<close> is computed in \<open>int\<close> and stored in an \<open>unsigned short\<close>. The loop
  leaves \<open>i = 63\<close>, the address of the last write.
\<close>

function put_eeprom_loop ::
    "(nat \<Rightarrow> u16) \<Rightarrow> u16 list \<Rightarrow> nat \<Rightarrow> u16 \<Rightarrow> usb_dev_handle \<Rightarrow> nat \<times> u16 \<times> usb_dev_handle" where
  "put_eeprom_loop past buf i cs handle =
     (if i < EEPROM_START_ADDR + EEPROM_USER_CS_ADDR then
        put_eeprom_loop past buf (i + 1) (cs + c_read past buf i)
          (write_eeprom handle (int i) (c_read past buf (i - EEPROM_START_ADDR)))
      else (i, cs, handle))"
  by pat_completeness auto
termination
  by (relation "measure (\<lambda>(past, buf, i, cs, handle). 63 - i)")
     (auto simp: EEPROM_START_ADDR_def EEPROM_USER_CS_ADDR_def)

definition put_eeprom ::
    "(nat \<Rightarrow> u16) \<Rightarrow> usb_dev_handle \<Rightarrow> u16 list \<Rightarrow> u16 list \<times> usb_dev_handle" where
  "put_eeprom past handle buf =
     (let buf1 = buf[EEPROM_USER_MAGIC_ADDR := EEPROM_MAGIC];
          (i, cs, h) = put_eeprom_loop past buf1 EEPROM_START_ADDR 0xffff handle;
          buf2 = buf1[EEPROM_USER_CS_ADDR := word_of_int ((65535 - uint cs) + 1)]
      in (buf2, write_eeprom h (int i) (c_read past buf2 EEPROM_USER_CS_ADDR)))"

text \<open>
  \<open>put_eeprom_mfg_data\<close>: the loop bound is \<open>sizeof(cm119b_manufacturer_data)\<close>, the
  size of the table in bytes: 51 elements of \<open>sizeof(unsigned short) = 2\<close> bytes each.
\<close>

definition sizeof_cm119b_manufacturer_data :: nat where
  "sizeof_cm119b_manufacturer_data = length cm119b_manufacturer_data * 2"

function put_eeprom_mfg_loop :: "(nat \<Rightarrow> u16) \<Rightarrow> nat \<Rightarrow> usb_dev_handle \<Rightarrow> usb_dev_handle" where
  "put_eeprom_mfg_loop past i handle =
     (if i < sizeof_cm119b_manufacturer_data then
        put_eeprom_mfg_loop past (i + 1)
          (write_eeprom handle (int i) (c_read past cm119b_manufacturer_data i))
      else handle)"
  by pat_completeness auto
termination
  by (relation "measure (\<lambda>(past, i, handle). sizeof_cm119b_manufacturer_data - i)") auto

declare get_eeprom_loop.simps [simp del]
declare put_eeprom_loop.simps [simp del]
declare put_eeprom_mfg_loop.simps [simp del]

definition put_eeprom_mfg_data :: "(nat \<Rightarrow> u16) \<Rightarrow> usb_dev_handle \<Rightarrow> string list \<times> usb_dev_handle" where
  "put_eeprom_mfg_data past handle =
     ([''CM-119B Manufacturer data updated.''], put_eeprom_mfg_loop past 0 handle)"

text \<open>
  The branch \<open>case 'M'\<close> of the menu in \<open>main\<close>, with the global \<open>devproductid\<close>
  as a parameter.
\<close>

definition main_case_M ::
    "(nat \<Rightarrow> u16) \<Rightarrow> int \<Rightarrow> usb_dev_handle \<Rightarrow> string list \<times> usb_dev_handle" where
  "main_case_M past devproductid usb_handle =
     (if devproductid \<noteq> C119B_PRODUCT_ID
      then ([''This option is only for the CM-119B chip.''], usb_handle)
      else (let (out, h) = put_eeprom_mfg_data past usb_handle in (out @ [''''], h)))"

text \<open>
  The character \<open>main\<close> switches on: \<open>c = str[0]; if (isupper(c)) c = tolower(str[0])\<close>,
  with \<open>isupper\<close> and \<open>tolower\<close> as the C standard defines them in the "C" locale (the
  program never sets another one).
\<close>

definition isupper :: "char \<Rightarrow> bool" where
  "isupper c \<longleftrightarrow> (65 :: nat) \<le> of_char c \<and> (of_char c :: nat) \<le> 90"

definition tolower :: "char \<Rightarrow> char" where
  "tolower c = (if isupper c then char_of ((of_char c :: nat) + 32) else c)"

definition main_switch_key :: "char \<Rightarrow> char" where
  "main_switch_key c0 = (if isupper c0 then tolower c0 else c0)"

text \<open>\<open>eeprom_init\<close>: a zeroed \<open>unsigned short sbuf[64]\<close> handed to \<open>put_eeprom\<close>.\<close>

definition eeprom_init :: "(nat \<Rightarrow> u16) \<Rightarrow> usb_dev_handle \<Rightarrow> usb_dev_handle" where
  "eeprom_init past usb_handle = snd (put_eeprom past usb_handle (replicate 64 0))"

text \<open>The four hexadecimal digits \<open>printf\<close> prints for \<open>%04x\<close> of a value below 65536.\<close>

definition hexdigit :: "int \<Rightarrow> char" where
  "hexdigit d = ''0123456789abcdef'' ! nat (d mod 16)"

definition hex4 :: "int \<Rightarrow> string" where
  "hex4 v = [hexdigit (v div 4096), hexdigit (v div 256), hexdigit (v div 16), hexdigit v]"

text \<open>\<open>eeprom_test\<close>; the lines printed and \<open>nerror\<close> are returned with the handle.\<close>

definition eeprom_test :: "usb_dev_handle \<Rightarrow> (string list \<times> int) \<times> usb_dev_handle" where
  "eeprom_test usb_handle =
     (let h1 = write_eeprom usb_handle (int (EEPROM_START_ADDR + EEPROM_USER_SPARE)) 0x6942;
          (w, h2) = read_eeprom h1 (int (EEPROM_START_ADDR + EEPROM_USER_SPARE));
          i = uint w
      in if i \<noteq> 0x6942
         then (([''Error!! EEPROM wrote 6942 hex, read '' @ hex4 i @ '' hex''], 1), h2)
         else (([''Success - EEPROM wrote 6942 hex, read '' @ hex4 i @ '' hex''], 0), h2))"


section \<open>Digital loopback test\<close>

definition baboons :: "u8 \<Rightarrow> string" where
  "baboons v = (if v \<noteq> 0 then ''1'' else ''0'')"

text \<open>
  \<open>dioerror\<close>: the lines printed and the count \<open>n\<close>. The source tests the bits 0x2,
  0x10, 0x40 and 0x80 of \<open>err\<close>, in this order, and prints the same pair name for the
  last two.
\<close>

definition dioerror :: "u8 \<Rightarrow> u8 \<Rightarrow> string list \<times> int" where
  "dioerror got should =
     (let err = got XOR should;
          (o1, n1) = (if err AND 0x2 \<noteq> 0
             then ([''Error on GPIO1/GPIO2, got '' @ baboons (got AND 2) @
                    '', should be '' @ baboons (should AND 2)], 0 + 1)
             else ([], 0));
          (o2, n2) = (if err AND 0x10 \<noteq> 0
             then (o1 @ [''Error on GPIO3/PTT/COR IN, got '' @ baboons (got AND 0x10) @
                    '', should be '' @ baboons (should AND 0x10)], n1 + 1)
             else (o1, n1));
          (o3, n3) = (if err AND 0x40 \<noteq> 0
             then (o2 @ [''Error on GPIO5/GPIO7, got '' @ baboons (got AND 0x40) @
                    '', should be '' @ baboons (should AND 0x40)], n2 + 1)
             else (o2, n2));
          (o4, n4) = (if err AND 0x80 \<noteq> 0
             then (o3 @ [''Error on GPIO5/GPIO7, got '' @ baboons (got AND 0x80) @
                    '', should be '' @ baboons (should AND 0x80)], n3 + 1)
             else (o3, n3))
      in (o4, n4))"

definition testio ::
    "devtype \<Rightarrow> usb_dev_handle \<Rightarrow> u8 \<Rightarrow> u8 \<Rightarrow> (string list \<times> int) \<times> usb_dev_handle" where
  "testio dt usb_handle toout toexpect =
     (let h1 = setout dt usb_handle toout;
          (g, h2) = getin dt h1;
          c = g AND 0xf2
      in (dioerror c toexpect, h2))"

text \<open>
  \<open>digital_test\<close>: \<open>nerror += testio(...)\<close> for each step; \<open>testio_step\<close> is one such
  statement on the lines printed so far, \<open>nerror\<close> and the handle.
\<close>

definition testio_step ::
    "devtype \<Rightarrow> u8 \<Rightarrow> u8 \<Rightarrow> string list \<times> int \<times> usb_dev_handle
      \<Rightarrow> string list \<times> int \<times> usb_dev_handle" where
  "testio_step dt toout toexpect s =
     (case s of (out, nerror, h) \<Rightarrow>
        (case testio dt h toout toexpect of ((out', n), h') \<Rightarrow> (out @ out', nerror + n, h')))"

text \<open>The digits \<open>printf\<close> prints for \<open>%d\<close> of a value that is not negative.\<close>

fun dec :: "nat \<Rightarrow> string" where
  "dec n = (if n < 10 then [''0123456789'' ! n]
            else dec (n div 10) @ [''0123456789'' ! (n mod 10)])"

declare dec.simps [simp del]

definition digital_test :: "devtype \<Rightarrow> usb_dev_handle \<Rightarrow> (string list \<times> int) \<times> usb_dev_handle" where
  "digital_test dt usb_handle =
     (let s0 = ([''Testing digital I/O (PTT,COR,TONE and GPIO)....''], 0, usb_handle);
          s1 = testio_step dt 8 0 s0;
          s2 = testio_step dt 9 2 s1;
          s3 = testio_step dt 0xc 0x10 s2;
          s4 = testio_step dt 0 0x20 s3;
          s5 = (if dt = DEV_C119
                then testio_step dt 0x28 0x80 (testio_step dt 0x18 0x40 s4)
                else s4);
          (out, nerror, h) = testio_step dt 8 0 s5
      in if nerror = 0
         then ((out @ [''Digital I/O passed!!''], nerror), h)
         else ((out @ [''Digital I/O had '' @ dec (nat nerror) @ '' errors!!''], nerror), h))"


section \<open>Reading the EEPROM out, and the menu of main\<close>

text \<open>
  \<open>get_eeprom_dump\<close>: the loop \<open>for (i = 0; i < 64; i++) buf[i] = read_eeprom(handle, i)\<close>.
\<close>

function get_eeprom_dump_loop ::
    "nat \<Rightarrow> u16 list \<Rightarrow> usb_dev_handle \<Rightarrow> u16 list \<times> usb_dev_handle" where
  "get_eeprom_dump_loop i buf handle =
     (if i < 64 then
        (let (w, h) = read_eeprom handle (int i)
         in get_eeprom_dump_loop (i + 1) (buf[i := w]) h)
      else (buf, handle))"
  by pat_completeness auto
termination
  by (relation "measure (\<lambda>(i, buf, handle). 64 - i)") auto

declare get_eeprom_dump_loop.simps [simp del]

definition get_eeprom_dump :: "usb_dev_handle \<Rightarrow> u16 list \<Rightarrow> u16 list \<times> usb_dev_handle" where
  "get_eeprom_dump handle buf = get_eeprom_dump_loop 0 buf handle"

text \<open>
  \<open>eeprom_list\<close>, \<open>eeprom_dump\<close> and \<open>eeprom_list_manufacturer\<close> fill a local buffer
  (\<open>sbuf[13]\<close> with \<open>get_eeprom\<close>, \<open>sbuf[64]\<close> with \<open>get_eeprom_dump\<close>) and from then on
  only print from it: after that one call none of them uses the handle. The model gives
  the buffer they print from and the handle; the buffers are not initialised in the
  source and filled in every word by the call, the model starts them from zeros.
\<close>

definition eeprom_list :: "usb_dev_handle \<Rightarrow> u16 list \<times> usb_dev_handle" where
  "eeprom_list usb_handle = snd (get_eeprom usb_handle (replicate 13 0))"

definition eeprom_dump :: "usb_dev_handle \<Rightarrow> u16 list \<times> usb_dev_handle" where
  "eeprom_dump usb_handle = get_eeprom_dump usb_handle (replicate 64 0)"

definition eeprom_list_manufacturer :: "usb_dev_handle \<Rightarrow> u16 list \<times> usb_dev_handle" where
  "eeprom_list_manufacturer usb_handle = get_eeprom_dump usb_handle (replicate 64 0)"

text \<open>
  One pass through the menu loop of \<open>main\<close>, as far as the device is concerned: the
  handle after the \<open>switch\<close>, for a line whose first character is \<open>str0\<close>. The
  \<open>switch\<close> is on \<open>main_switch_key str0\<close>; its labels are kept as the source has them.
  The keys that set a frequency, the pinout and \<open>analog_test\<close> do not use the handle.
\<close>

definition main_pass ::
    "devtype \<Rightarrow> int \<Rightarrow> (nat \<Rightarrow> u16) \<Rightarrow> char \<Rightarrow> usb_dev_handle \<Rightarrow> usb_dev_handle" where
  "main_pass dt devproductid past str0 usb_handle =
     (let c = main_switch_key str0 in
      if c = CHR ''x'' \<or> c = CHR ''q'' then usb_handle
      else if c \<in> set ''123456789'' \<or> c = CHR 0x00 \<or> c = CHR 0x0A \<or> c = CHR 0x0D
        then usb_handle
      else if c = CHR ''i'' then snd (digital_test dt usb_handle)
      else if c = CHR ''t'' \<or> c = CHR ''T'' then snd (digital_test dt usb_handle)
      else if c = CHR ''e'' \<or> c = CHR ''E'' then
        (if str0 = CHR ''E'' then eeprom_init past usb_handle
         else snd (eeprom_test usb_handle))
      else if c = CHR ''l'' then snd (eeprom_list usb_handle)
      else if c = CHR ''d'' then snd (eeprom_dump usb_handle)
      else if c = CHR ''m'' then snd (eeprom_list_manufacturer usb_handle)
      else if c = CHR ''M'' then snd (main_case_M past devproductid usb_handle)
      else usb_handle)"


section \<open>Floating-point arithmetic\<close>

text \<open>
  The tone synthesizer (\<open>get_tonesample\<close>, \<open>outaudio\<close>) and the analyzer in \<open>soundthread\<close>
  compute in \<open>float\<close> and \<open>double\<close>. The floating-point arithmetic of the platform is a
  parameter of the model: \<open>'f\<close> stands for \<open>float\<close>, \<open>'d\<close> for \<open>double\<close>, and every
  operator, conversion and library call of the source is one application of an operation
  of the record below, with the operand types C gives it (\<open>float\<close> operands: a \<open>float\<close>
  operation; one \<open>double\<close> operand: the other is converted and the operation is a
  \<open>double\<close> one; an \<open>int\<close> operand next to a \<open>float\<close> is converted to \<open>float\<close>; a value
  stored in a \<open>float\<close> variable is converted to \<open>float\<close>). Each operation is evaluated in
  the type of its operands and rounds by itself: no excess precision, no contraction of
  a product and a sum into one operation. \<open>lit\<close> is the \<open>double\<close> a decimal literal
  denotes, \<open>f2us\<close> the conversion at the store into an \<open>unsigned short\<close>.
\<close>

record ('f, 'd) fp_ops =
  lit :: "real \<Rightarrow> 'd"
  m_pi :: 'd
  f2d :: "'f \<Rightarrow> 'd"
  d2f :: "'d \<Rightarrow> 'f"
  i2f :: "int \<Rightarrow> 'f"
  f2us :: "'f \<Rightarrow> u16"
  fadd :: "'f \<Rightarrow> 'f \<Rightarrow> 'f"
  fsub :: "'f \<Rightarrow> 'f \<Rightarrow> 'f"
  fmul :: "'f \<Rightarrow> 'f \<Rightarrow> 'f"
  dadd :: "'d \<Rightarrow> 'd \<Rightarrow> 'd"
  dsub :: "'d \<Rightarrow> 'd \<Rightarrow> 'd"
  dmul :: "'d \<Rightarrow> 'd \<Rightarrow> 'd"
  ddiv :: "'d \<Rightarrow> 'd \<Rightarrow> 'd"
  dlt :: "'d \<Rightarrow> 'd \<Rightarrow> bool"
  dabs :: "'d \<Rightarrow> 'd"
  dsqrt :: "'d \<Rightarrow> 'd"
  dcos :: "'d \<Rightarrow> 'd"
  dsin :: "'d \<Rightarrow> 'd"




section \<open>Tone synthesizer\<close>

definition AUDIO_BLOCKSIZE :: nat where "AUDIO_BLOCKSIZE = 4096"
definition AUDIO_SAMPLES_PER_BLOCK :: nat where "AUDIO_SAMPLES_PER_BLOCK = AUDIO_BLOCKSIZE div 4"

text \<open>\<open>struct tonevars\<close>: two \<open>float\<close> fields.\<close>

record 'f tonevars =
  mycr :: 'f
  myci :: 'f

text \<open>
  \<open>get_tonesample\<close>: the sample returned and the oscillator state left in \<open>*tvars\<close>. The
  constants \<open>2.0\<close> and \<open>0.9092\<close> are \<open>double\<close> literals; the results are stored in, or
  returned as, \<open>float\<close>.
\<close>

definition get_tonesample ::
    "('f, 'd) fp_ops \<Rightarrow> devtype \<Rightarrow> 'f tonevars \<Rightarrow> 'f \<Rightarrow> 'f \<Rightarrow> 'f \<times> 'f tonevars" where
  "get_tonesample ops dt tvars ddr ddi =
     (let t = fsub ops (fmul ops (mycr tvars) ddr) (fmul ops (myci tvars) ddi);
          tv1 = tvars\<lparr>myci := fadd ops (fmul ops (mycr tvars) ddi) (fmul ops (myci tvars) ddr)\<rparr>;
          tv2 = tv1\<lparr>mycr := t\<rparr>;
          t' = d2f ops (dsub ops (lit ops 2.0)
                 (f2d ops (fadd ops (fmul ops (mycr tv2) (mycr tv2))
                                    (fmul ops (myci tv2) (myci tv2)))));
          tv3 = tv2\<lparr>mycr := fmul ops (mycr tv2) t'\<rparr>;
          tv4 = tv3\<lparr>myci := fmul ops (myci tv3) t'\<rparr>
      in if dt = DEV_C108AH \<or> dt = DEV_C119
         then (mycr tv4, tv4)
         else (d2f ops (dmul ops (f2d ops (mycr tv4)) (lit ops 0.9092)), tv4))"



text \<open>
  One channel of one pass through the loop: the word stored in the block and the
  oscillator state. \<open>buf[i] = f * 32765\<close> multiplies in \<open>float\<close> and converts the product
  to \<open>unsigned short\<close>. The step is set exactly when \<open>freq > 0.0\<close>, the test of the loop.
\<close>

definition outaudio_channel ::
    "('f, 'd) fp_ops \<Rightarrow> devtype \<Rightarrow> ('f \<times> 'f) option \<Rightarrow> 'f tonevars \<Rightarrow> u16 \<times> 'f tonevars" where
  "outaudio_channel ops dt dd t =
     (case dd of
        Some (ddr, ddi) \<Rightarrow>
          (let (f, t') = get_tonesample ops dt t ddr ddi
           in (f2us ops (fmul ops f (i2f ops 32765)), t'))
      | None \<Rightarrow> (0, t))"

function outaudio_loop ::
    "('f, 'd) fp_ops \<Rightarrow> devtype \<Rightarrow> ('f \<times> 'f) option \<Rightarrow> ('f \<times> 'f) option \<Rightarrow> nat \<Rightarrow> u16 list
      \<Rightarrow> 'f tonevars \<Rightarrow> 'f tonevars \<Rightarrow> u16 list \<times> 'f tonevars \<times> 'f tonevars" where
  "outaudio_loop ops dt dd1 dd2 i buf t1 t2 =
     (if i < AUDIO_SAMPLES_PER_BLOCK * 2 then
        (let (v1, t1') = outaudio_channel ops dt dd1 t1;
             (v2, t2') = outaudio_channel ops dt dd2 t2
         in outaudio_loop ops dt dd1 dd2 (i + 2) (buf[i := v1, i + 1 := v2]) t1' t2')
      else (buf, t1, t2))"
  by pat_completeness auto
termination
  by (relation "measure (\<lambda>(ops, dt, dd1, dd2, i, buf, t1, t2). AUDIO_SAMPLES_PER_BLOCK * 2 - i)")
     auto

declare outaudio_loop.simps [simp del]






section \<open>Spectral analyzer\<close>





text \<open>
  The words of the analyzer's description, for comparison with the code: the center
  frequency of a bin at transform length 1024 and sample rate 48000, the bins within
  1.5 bin widths of a target, the magnitude-squared of a bin, the sum accumulated over
  a list of bins in the order of the list, and the level reported for a sum. The band is
  a set of bins on the real line; the sum and the level are values of the arithmetic.
\<close>

definition bin_center :: "nat \<Rightarrow> real" where
  "bin_center i = real i * (48000 / 1024)"







section \<open>Observations on the transfer log\<close>

text \<open>
  The EEPROM address an output report writes, when it is a write command (the reports
  \<open>hid_set_report\<close> stores in a cell), and the addresses written by a log.
\<close>

fun write_addr :: "xfer \<Rightarrow> nat option" where
  "write_addr (OutReport r) =
     (if byte0 r = 0x80 \<and> byte3 r AND 0xc0 = 0xc0 then Some (unat (byte3 r AND 0x3f)) else None)"
| "write_addr InReport = None"

definition write_addrs :: "xfer list \<Rightarrow> nat list" where
  "write_addrs ws = List.map_filter write_addr ws"

text \<open>A device with a blank EEPROM, idle lines, an empty log and no failing transfer.\<close>

definition blank_report :: hid_report where
  "blank_report = \<lparr>byte0 = 0, byte1 = 0, byte2 = 0, byte3 = 0\<rparr>"

definition blank_dev :: usb_dev_handle where
  "blank_dev = \<lparr>eeprom = (\<lambda>a. 0), hid_ir = blank_report,
                 gpio_pins = (\<lambda>dir lev. blank_report), wire = [], rcs = []\<rparr>"

text \<open>
  A device whose user segment is valid: the magic word at 51, zeros, and at 63 the
  word that brings the sum to 0.
\<close>

definition valid_dev :: usb_dev_handle where
  "valid_dev = blank_dev\<lparr>eeprom := (\<lambda>a. if a = 51 then 34329 else if a = 63 then 31208 else 0)\<rparr>"


text \<open>A device whose next control transfer fails.\<close>

definition failing_dev :: usb_dev_handle where
  "failing_dev = blank_dev\<lparr>rcs := [-1]\<rparr>"

text \<open>A CM108AH that reports the bytes 0x02 and 0xcf: hook bit (byte 0, bit 4) clear.\<close>

definition hook_dev :: usb_dev_handle where
  "hook_dev = blank_dev\<lparr>hid_ir := \<lparr>byte0 = 0x02, byte1 = 0xcf, byte2 = 0, byte3 = 0\<rparr>\<rparr>"

text \<open>
  A device on which the COR input (byte 0, bit 1) and GPIO2 (byte 1, bit 1) both read
  as 1 whatever is driven.
\<close>

definition cor_dev :: usb_dev_handle where
  "cor_dev = blank_dev\<lparr>gpio_pins := (\<lambda>dir lev. \<lparr>byte0 = 0x02, byte1 = 0x02, byte2 = 0, byte3 = 0\<rparr>)\<rparr>"

text \<open>
  A device with the loopback plug wired for GPIO1 to GPIO2 and GPIO3 to CTCSS, and the
  COR input never asserted.
\<close>

definition no_cor_dev :: usb_dev_handle where
  "no_cor_dev = blank_dev\<lparr>gpio_pins := (\<lambda>dir lev.
      if lev = 9 then \<lparr>byte0 = 0, byte1 = 0x02, byte2 = 0, byte3 = 0\<rparr>
      else if lev = 0xc then \<lparr>byte0 = 0x01, byte1 = 0, byte2 = 0, byte3 = 0\<rparr>
      else \<lparr>byte0 = 0, byte1 = 0, byte2 = 0, byte3 = 0\<rparr>)\<rparr>"




section \<open>Bits of the constants\<close>

lemma int_and_63: "(addr :: int) AND 0x3f = addr mod 64"
proof -
  have "(0x3f :: int) = mask 6" by (simp add: mask_eq_exp_minus_1)
  then have "addr AND 0x3f = take_bit 6 addr" by (simp only: take_bit_eq_mask)
  then show ?thesis by (simp add: take_bit_eq_mod)
qed

lemma bit_int_192: "bit (192 :: int) n \<longleftrightarrow> n = 6 \<or> n = 7"
proof -
  have "(192 :: int) = push_bit 6 (mask 2)" by (simp add: mask_eq_exp_minus_1)
  then have "bit (192 :: int) n \<longleftrightarrow> bit (push_bit 6 (mask 2) :: int) n" by (simp only:)
  also have "\<dots> \<longleftrightarrow> n = 6 \<or> n = 7"
    by (simp only: bit_push_bit_iff bit_mask_iff) auto
  finally show ?thesis .
qed

lemma bit_int_128: "bit (128 :: int) n \<longleftrightarrow> n = 7"
proof -
  have "(128 :: int) = push_bit 7 (mask 1)" by (simp add: mask_eq_exp_minus_1)
  then have "bit (128 :: int) n \<longleftrightarrow> bit (push_bit 7 (mask 1) :: int) n" by (simp only:)
  also have "\<dots> \<longleftrightarrow> n = 7"
    by (simp only: bit_push_bit_iff bit_mask_iff) auto
  finally show ?thesis .
qed

lemma bit_u8_192: "bit (192 :: u8) n \<longleftrightarrow> n = 6 \<or> n = 7"
proof -
  have "(192 :: u8) = word_of_int 192" by simp
  then show ?thesis by (auto simp only: bit_word_of_int_iff bit_int_192) simp_all
qed

lemma bit_u8_128: "bit (128 :: u8) n \<longleftrightarrow> n = 7"
proof -
  have "(128 :: u8) = word_of_int 128" by simp
  then show ?thesis by (auto simp only: bit_word_of_int_iff bit_int_128) simp_all
qed

lemmas bit_consts = bit_int_192 bit_int_128 bit_u8_192 bit_u8_128

lemma unat_addr6: "unat (word_of_int (addr AND 0x3f) :: u8) = nat (addr mod 64)"
proof -
  have "uint (word_of_int (addr mod 64) :: u8) = (addr mod 64) mod 256"
    by (simp add: uint_word_of_int)
  also have "\<dots> = addr mod 64" by simp
  finally show ?thesis by (simp add: int_and_63 unat_eq_nat_uint)
qed

lemma word_bytes2:
  "(ucast (ucast (w :: u16) :: u8) :: u16) + push_bit 8 (ucast (ucast (drop_bit 8 w) :: u8)) = w"
proof -
  have a: "(ucast (ucast (w :: u16) :: u8) :: u16) = take_bit 8 w"
    by (rule bit_word_eqI) (auto simp add: bit_simps)
  have b: "(ucast (ucast (drop_bit 8 w) :: u8) :: u16) = drop_bit 8 w"
    by (rule bit_word_eqI) (auto simp add: bit_simps dest: bit_imp_le_length)
  show ?thesis unfolding a b using bits_ident [of 8 w] by (simp add: add.commute)
qed

lemma low_byte: "(ucast (d AND 0xff :: u16) :: u8) = ucast d"
proof -
  have m: "(0xff :: u16) = mask 8" by (simp add: mask_eq_exp_minus_1)
  show ?thesis unfolding m by (rule bit_word_eqI) (auto simp add: bit_simps)
qed

lemma word_bytes:
  "(ucast (ucast (d AND 0xff :: u16) :: u8) :: u16) + push_bit 8 (ucast (ucast (drop_bit 8 d) :: u8)) = d"
  unfolding low_byte by (rule word_bytes2)

lemma addr6_c0_and:
  "(word_of_int (0xc0 OR (addr AND 0x3f)) :: u8) AND 0x3f = word_of_int (addr AND 0x3f)"
proof -
  have m: "(0x3f :: int) = mask 6" "(0x3f :: u8) = mask 6" by (simp_all add: mask_eq_exp_minus_1)
  show ?thesis unfolding m by (rule bit_word_eqI) (auto simp add: bit_simps bit_consts)
qed

lemma addr6_c0: "(word_of_int (0xc0 OR (addr AND 0x3f)) :: u8) AND 0xc0 = 0xc0"
proof -
  have m: "(0x3f :: int) = mask 6" by (simp_all add: mask_eq_exp_minus_1)
  show ?thesis unfolding m by (rule bit_word_eqI) (auto simp add: bit_simps bit_consts)
qed

lemma addr6_80_and:
  "(word_of_int (0x80 OR (addr AND 0x3f)) :: u8) AND 0x3f = word_of_int (addr AND 0x3f)"
proof -
  have m: "(0x3f :: int) = mask 6" "(0x3f :: u8) = mask 6" by (simp_all add: mask_eq_exp_minus_1)
  show ?thesis unfolding m by (rule bit_word_eqI) (auto simp add: bit_simps bit_consts)
qed

lemma addr6_80: "(word_of_int (0x80 OR (addr AND 0x3f)) :: u8) AND 0xc0 = 0x80"
proof -
  have m: "(0x3f :: int) = mask 6" by (simp_all add: mask_eq_exp_minus_1)
  show ?thesis unfolding m by (rule bit_word_eqI) (auto simp add: bit_simps bit_consts)
qed


section \<open>One transfer, one word\<close>

lemma set_outputs_ok:
  "rcs h = [] \<Longrightarrow> set_outputs h r = hid_set_report (h\<lparr>wire := wire h @ [OutReport r]\<rparr>) r"
  by (simp add: set_outputs_def usb_control_msg_set_def next_rc_def)

lemma get_inputs_ok:
  "rcs h = [] \<Longrightarrow> get_inputs h b = (hid_ir h, h\<lparr>wire := wire h @ [InReport]\<rparr>)"
  by (simp add: get_inputs_def usb_control_msg_get_def next_rc_def)

lemma set_outputs_wire: "wire (set_outputs h r) = wire h @ [OutReport r]"
  by (simp add: set_outputs_def usb_control_msg_set_def next_rc_def hid_set_report_def
      split: list.splits)

lemma get_inputs_wire: "wire (snd (get_inputs h b)) = wire h @ [InReport]"
  by (simp add: get_inputs_def usb_control_msg_get_def next_rc_def split: list.splits)

lemma get_inputs_eeprom: "eeprom (snd (get_inputs h b)) = eeprom h"
  by (simp add: get_inputs_def usb_control_msg_get_def next_rc_def split: list.splits)

lemma write_eeprom_wire:
  "wire (write_eeprom h addr d) = wire h @
     [OutReport \<lparr>byte0 = 0x80, byte1 = ucast d, byte2 = ucast (drop_bit 8 d),
                 byte3 = word_of_int (0xc0 OR (addr AND 0x3f))\<rparr>]"
  by (simp add: write_eeprom_def set_outputs_wire low_byte)

lemma write_eeprom_ok:
  "rcs h = [] \<Longrightarrow> write_eeprom h addr d =
     h\<lparr>wire := wire h @
          [OutReport \<lparr>byte0 = 0x80, byte1 = ucast d, byte2 = ucast (drop_bit 8 d),
                      byte3 = word_of_int (0xc0 OR (addr AND 0x3f))\<rparr>],
       eeprom := (eeprom h)(nat (addr mod 64) := d)\<rparr>"
  by (simp add: write_eeprom_def set_outputs_ok hid_set_report_def addr6_c0 addr6_c0_and
      unat_addr6 word_bytes2 low_byte)

lemma write_eeprom_other:
  "a \<noteq> nat (addr mod 64) \<Longrightarrow> eeprom (write_eeprom h addr d) a = eeprom h a"
  by (simp add: write_eeprom_def set_outputs_def usb_control_msg_set_def next_rc_def
      hid_set_report_def addr6_c0 addr6_c0_and unat_addr6 split: list.splits)

lemma write_eeprom_rcs: "rcs (write_eeprom h addr d) = tl (rcs h)"
  by (simp add: write_eeprom_def set_outputs_def usb_control_msg_set_def next_rc_def
      hid_set_report_def split: list.splits)

lemma read_eeprom_ok:
  "rcs h = [] \<Longrightarrow> read_eeprom h addr =
     (eeprom h (nat (addr mod 64)),
      h\<lparr>wire := wire h @
          [OutReport \<lparr>byte0 = 0x80, byte1 = 0, byte2 = 0,
                      byte3 = word_of_int (0x80 OR (addr AND 0x3f))\<rparr>, InReport],
        hid_ir := (hid_ir h)\<lparr>byte1 := ucast (eeprom h (nat (addr mod 64))),
                    byte2 := ucast (drop_bit 8 (eeprom h (nat (addr mod 64))))\<rparr>\<rparr>)"
  by (simp add: read_eeprom_def set_outputs_ok get_inputs_ok hid_set_report_def addr6_80 addr6_80_and
      unat_addr6 word_bytes2)


section \<open>The loops over the user segment\<close>


lemma read_eeprom_wire:
  "wire (snd (read_eeprom h addr)) = wire h @
     [OutReport \<lparr>byte0 = 0x80, byte1 = 0, byte2 = 0,
                 byte3 = word_of_int (0x80 OR (addr AND 0x3f))\<rparr>, InReport]"
  by (simp add: read_eeprom_def get_inputs_wire set_outputs_wire split: prod.splits)
   (metis get_inputs_wire set_outputs_wire snd_conv append.assoc append_Cons append_Nil)

lemma get_eeprom_loop_ok:
  "rcs h = [] \<Longrightarrow>
   fst (get_eeprom_loop i cs buf h) = cs + sum_list (map (eeprom h) [i..<64])
   \<and> eeprom (snd (snd (get_eeprom_loop i cs buf h))) = eeprom h
   \<and> rcs (snd (snd (get_eeprom_loop i cs buf h))) = []"
proof (induction i cs buf h rule: get_eeprom_loop.induct)
  case (1 i cs buf handle)
  show ?case
  proof (cases "i \<le> EEPROM_START_ADDR + EEPROM_USER_CS_ADDR")
    case True
    then have i: "i < 64" by (simp add: EEPROM_START_ADDR_def EEPROM_USER_CS_ADDR_def)
    define h1 where "h1 = snd (read_eeprom handle (int i))"
    have r: "read_eeprom handle (int i) = (eeprom handle i, h1)"
      using 1(2) i by (simp add: h1_def read_eeprom_ok)
    have h1: "rcs h1 = []" "eeprom h1 = eeprom handle"
      using 1(2) i by (simp_all add: h1_def read_eeprom_ok)
    have ih: "fst (get_eeprom_loop (i + 1) (cs + eeprom handle i) (buf[i - EEPROM_START_ADDR := eeprom handle i]) h1)
        = cs + eeprom handle i + sum_list (map (eeprom h1) [i + 1..<64])
      \<and> eeprom (snd (snd (get_eeprom_loop (i + 1) (cs + eeprom handle i) (buf[i - EEPROM_START_ADDR := eeprom handle i]) h1))) = eeprom h1
      \<and> rcs (snd (snd (get_eeprom_loop (i + 1) (cs + eeprom handle i) (buf[i - EEPROM_START_ADDR := eeprom handle i]) h1))) = []"
      using "1.IH" [OF True refl r [symmetric] h1(1)] .
    have u: "[i..<64] = i # [i + 1..<64]" using i by (simp add: upt_conv_Cons)
    show ?thesis
      using ih True by (subst (1 2 3) get_eeprom_loop.simps) (simp add: r h1 u add.assoc)
  next
    case False
    then have "[i..<64] = []" by (simp add: EEPROM_START_ADDR_def EEPROM_USER_CS_ADDR_def)
    with False 1(2) show ?thesis by (subst (1 2 3) get_eeprom_loop.simps) simp
  qed
qed

lemma get_eeprom_cs:
  "rcs h = [] \<Longrightarrow> fst (get_eeprom h buf) = 0xffff + sum_list (map (eeprom h) [51..<64])"
  by (simp add: get_eeprom_def get_eeprom_loop_ok EEPROM_START_ADDR_def)

lemma put_eeprom_loop_i:
  "i \<le> 63 \<Longrightarrow> fst (put_eeprom_loop past buf i cs h) = 63"
proof (induction past buf i cs h rule: put_eeprom_loop.induct)
  case (1 past buf i cs handle)
  show ?case
  proof (cases "i < EEPROM_START_ADDR + EEPROM_USER_CS_ADDR")
    case True
    then have "i + 1 \<le> 63" by (simp add: EEPROM_START_ADDR_def EEPROM_USER_CS_ADDR_def)
    from "1.IH" [OF True this] True show ?thesis by (subst put_eeprom_loop.simps) simp
  next
    case False
    with 1(2) have "i = 63" by (simp add: EEPROM_START_ADDR_def EEPROM_USER_CS_ADDR_def)
    with False show ?thesis by (subst put_eeprom_loop.simps) simp
  qed
qed

lemma put_eeprom_loop_cs:
  "fst (snd (put_eeprom_loop past buf i cs h)) = cs + sum_list (map (c_read past buf) [i..<63])"
proof (induction past buf i cs h rule: put_eeprom_loop.induct)
  case (1 past buf i cs handle)
  show ?case
  proof (cases "i < EEPROM_START_ADDR + EEPROM_USER_CS_ADDR")
    case True
    then have i: "i < 63" by (simp add: EEPROM_START_ADDR_def EEPROM_USER_CS_ADDR_def)
    have u: "[i..<63] = i # [i + 1..<63]" using i by (simp add: upt_conv_Cons)
    from "1.IH" [OF True] True show ?thesis
      by (subst put_eeprom_loop.simps) (simp add: u add.assoc)
  next
    case False
    then have "[i..<63] = []" by (simp add: EEPROM_START_ADDR_def EEPROM_USER_CS_ADDR_def)
    with False show ?thesis by (subst put_eeprom_loop.simps) simp
  qed
qed

lemma put_eeprom_loop_wire:
  "wire (snd (snd (put_eeprom_loop past buf i cs h))) = wire h @
        map (\<lambda>j. OutReport \<lparr>byte0 = 0x80, byte1 = ucast (c_read past buf (j - 51)),
                 byte2 = ucast (drop_bit 8 (c_read past buf (j - 51))),
                 byte3 = word_of_int (0xc0 OR (int j AND 0x3f))\<rparr>) [i..<63]"
proof (induction past buf i cs h rule: put_eeprom_loop.induct)
  case (1 past buf i cs handle)
  show ?case
  proof (cases "i < EEPROM_START_ADDR + EEPROM_USER_CS_ADDR")
    case True
    then have i: "i < 63" by (simp add: EEPROM_START_ADDR_def EEPROM_USER_CS_ADDR_def)
    have u: "[i..<63] = i # [i + 1..<63]" using i by (simp add: upt_conv_Cons)
    from "1.IH" [OF True] True show ?thesis
      by (subst put_eeprom_loop.simps) (simp add: u write_eeprom_wire EEPROM_START_ADDR_def)
  next
    case False
    then have "[i..<63] = []" by (simp add: EEPROM_START_ADDR_def EEPROM_USER_CS_ADDR_def)
    with False show ?thesis by (subst put_eeprom_loop.simps) simp
  qed
qed

lemma put_eeprom_loop_rcs:
  "rcs h = [] \<Longrightarrow> rcs (snd (snd (put_eeprom_loop past buf i cs h))) = []"
proof (induction past buf i cs h rule: put_eeprom_loop.induct)
  case (1 past buf i cs handle)
  show ?case
  proof (cases "i < EEPROM_START_ADDR + EEPROM_USER_CS_ADDR")
    case True
    have "rcs (write_eeprom handle (int i) (c_read past buf (i - EEPROM_START_ADDR))) = []"
      using 1(2) by (simp add: write_eeprom_rcs)
    from "1.IH" [OF True this] True show ?thesis by (subst put_eeprom_loop.simps) simp
  next
    case False
    with 1(2) show ?thesis by (subst put_eeprom_loop.simps) simp
  qed
qed

lemma put_eeprom_loop_other:
  "a < i \<or> 63 \<le> a \<Longrightarrow> eeprom (snd (snd (put_eeprom_loop past buf i cs h))) a = eeprom h a"
proof (induction past buf i cs h rule: put_eeprom_loop.induct)
  case (1 past buf i cs handle)
  show ?case
  proof (cases "i < EEPROM_START_ADDR + EEPROM_USER_CS_ADDR")
    case True
    then have i: "i < 63" by (simp add: EEPROM_START_ADDR_def EEPROM_USER_CS_ADDR_def)
    have e: "eeprom (write_eeprom handle (int i) (c_read past buf (i - EEPROM_START_ADDR))) a = eeprom handle a"
      using i 1(2) by (intro write_eeprom_other) auto
    from 1(2) have "a < i + 1 \<or> 63 \<le> a" by auto
    from "1.IH" [OF True this] True e show ?thesis by (subst put_eeprom_loop.simps) simp
  next
    case False
    then show ?thesis by (subst put_eeprom_loop.simps) simp
  qed
qed

lemma put_eeprom_loop_ok:
  "rcs h = [] \<Longrightarrow> i \<le> a \<Longrightarrow> a < 63 \<Longrightarrow>
     eeprom (snd (snd (put_eeprom_loop past buf i cs h))) a = c_read past buf (a - 51)"
proof (induction past buf i cs h rule: put_eeprom_loop.induct)
  case (1 past buf i cs handle)
  from 1(3,4) have T: "i < EEPROM_START_ADDR + EEPROM_USER_CS_ADDR"
    by (simp add: EEPROM_START_ADDR_def EEPROM_USER_CS_ADDR_def)
  let ?h1 = "write_eeprom handle (int i) (c_read past buf (i - EEPROM_START_ADDR))"
  have r: "rcs ?h1 = []" using 1(2) by (simp add: write_eeprom_rcs)
  show ?case
  proof (cases "a = i")
    case True
    have "eeprom (snd (snd (put_eeprom_loop past buf (i + 1) (cs + c_read past buf i) ?h1))) a = eeprom ?h1 a"
      using True by (intro put_eeprom_loop_other) simp
    also have "\<dots> = c_read past buf (a - 51)"
      using 1(2,4) True by (simp add: write_eeprom_ok EEPROM_START_ADDR_def)
    finally show ?thesis using T by (subst put_eeprom_loop.simps) simp
  next
    case False
    with 1(3) have "i + 1 \<le> a" by simp
    from "1.IH" [OF T r this 1(4)] T show ?thesis by (subst put_eeprom_loop.simps) simp
  qed
qed

lemma upt_51_64: "[51..<64] = [51, 52, 53, 54, 55, 56, 57, 58, 59, 60, 61, 62, 63 :: nat]"
  by code_simp

lemma upt_51_63: "[51..<63] = [51, 52, 53, 54, 55, 56, 57, 58, 59, 60, 61, 62 :: nat]"
  by code_simp

lemma write_addrs_append: "write_addrs (xs @ ys) = write_addrs xs @ write_addrs ys"
  by (simp add: write_addrs_def map_filter_def)

lemma write_addr_frame:
  "write_addr (OutReport \<lparr>byte0 = 0x80, byte1 = lo, byte2 = hi,
      byte3 = word_of_int (0xc0 OR (addr AND 0x3f))\<rparr>) = Some (nat (addr mod 64))"
  by (simp add: addr6_c0 addr6_c0_and unat_addr6)

lemma write_addrs_frames:
  "\<forall>j \<in> set js. j < 64 \<Longrightarrow>
   write_addrs (map (\<lambda>j. OutReport \<lparr>byte0 = 0x80, byte1 = lo j, byte2 = hi j,
      byte3 = word_of_int (0xc0 OR (int j AND 0x3f))\<rparr>) js) = js"
  by (induction js) (simp_all add: write_addrs_def write_addr_frame del: write_addr.simps)

lemma put_eeprom_snd:
  "snd (put_eeprom past h buf) =
     write_eeprom
       (snd (snd (put_eeprom_loop past (buf[EEPROM_USER_MAGIC_ADDR := EEPROM_MAGIC]) 51 0xffff h))) 63
       (c_read past
          (buf[EEPROM_USER_MAGIC_ADDR := EEPROM_MAGIC,
               EEPROM_USER_CS_ADDR := word_of_int (65535 -
                 uint (fst (snd (put_eeprom_loop past (buf[EEPROM_USER_MAGIC_ADDR := EEPROM_MAGIC])
                    51 0xffff h))) + 1)])
          EEPROM_USER_CS_ADDR)"
  by (simp add: put_eeprom_def split_def Let_def put_eeprom_loop_i EEPROM_START_ADDR_def)

lemma put_eeprom_wire:
  "write_addrs (wire (snd (put_eeprom past h buf))) = write_addrs (wire h) @ [51..<64]"
proof -
  define js :: "nat list" where "js = [51..<63]"
  have js: "\<forall>j \<in> set js. j < 64" by (simp add: js_def)
  have u: "[51..<64] = js @ [63]" unfolding js_def by code_simp
  have n: "nat (63 mod 64) = 63" by simp
  show ?thesis
    unfolding put_eeprom_snd write_eeprom_wire put_eeprom_loop_wire js_def [symmetric] u
      write_addrs_append write_addrs_frames [OF js]
    by (simp add: write_addrs_def)
qed

lemma put_eeprom_other:
  "a < 51 \<or> 64 \<le> a \<Longrightarrow> eeprom (snd (put_eeprom past h buf)) a = eeprom h a"
  unfolding put_eeprom_snd
  by (subst write_eeprom_other) (auto simp add: put_eeprom_loop_other)


section \<open>User segment: write path, wire encoding, self-test\<close>

text \<open>
  Claim C5. Every EEPROM address that \<open>put_eeprom\<close> puts on the wire lies in
  \<open>[51, 63]\<close>: whatever the memory past the buffer, the state of the device and the
  image, the call submits 13 transfers, all of them write commands, to the addresses
  51, 52, ..., 63 in this order, and no cell at an address up to 50 changes.
\<close>

theorem put_eeprom_user_segment_only:
  "write_addrs (wire (snd (put_eeprom past h buf))) = write_addrs (wire h) @ [51..<64]
   \<and> length (wire (snd (put_eeprom past h buf))) = length (wire h) + 13
   \<and> (\<forall>a \<in> set (drop (length (write_addrs (wire h)))
                     (write_addrs (wire (snd (put_eeprom past h buf))))). 51 \<le> a \<and> a \<le> 63)
   \<and> (\<forall>a. a \<le> 50 \<longrightarrow> eeprom (snd (put_eeprom past h buf)) a = eeprom h a)"
proof -
  have w: "write_addrs (wire (snd (put_eeprom past h buf))) = write_addrs (wire h) @ [51..<64]"
    by (rule put_eeprom_wire)
  have l: "length (wire (snd (put_eeprom past h buf))) = length (wire h) + 13"
    unfolding put_eeprom_snd write_eeprom_wire put_eeprom_loop_wire by simp
  have s: "\<forall>a \<in> set (drop (length (write_addrs (wire h)))
                     (write_addrs (wire (snd (put_eeprom past h buf))))). 51 \<le> a \<and> a \<le> 63"
    unfolding w by simp
  have e: "\<forall>a. a \<le> 50 \<longrightarrow> eeprom (snd (put_eeprom past h buf)) a = eeprom h a"
    by (simp add: put_eeprom_other)
  from w l s e show ?thesis by blast
qed

theorem put_eeprom_user_segment_only_witness:
  "63 \<in> set (drop (length (write_addrs (wire blank_dev)))
       (write_addrs (wire (snd (put_eeprom (\<lambda>i. 0) blank_dev (replicate 13 0))))))
   \<and> (50 :: nat) \<le> 50
   \<and> eeprom (snd (put_eeprom (\<lambda>i. 0) blank_dev (replicate 13 0))) 50 = 0"
  using put_eeprom_user_segment_only [of "\<lambda>i. 0" blank_dev "replicate 13 0"]
  by (simp add: blank_dev_def write_addrs_def upt_51_64)

text \<open>
  Claim C8. \<open>read_eeprom\<close> sends the report \<open>[0x80, 0, 0, 0x80 | (addr & 0x3f)]\<close>,
  requests one input report and, when the transfers succeed, returns byte 1 of the
  response plus byte 2 shifted left by 8. \<open>write_eeprom\<close> sends
  \<open>[0x80, data & 0xff, data >> 8, 0xC0 | (addr & 0x3f)]\<close> and requests no input
  report. The address field \<open>addr & 0x3f\<close> is \<open>addr mod 64\<close>, below 64.
\<close>

theorem eeprom_word_wire_encoding:
  "wire (snd (read_eeprom h addr)) = wire h @
     [OutReport \<lparr>byte0 = 0x80, byte1 = 0, byte2 = 0,
                 byte3 = 0x80 OR word_of_int (addr AND 0x3f)\<rparr>, InReport]
   \<and> (rcs h = [] \<longrightarrow> fst (read_eeprom h addr) =
         ucast (byte1 (hid_ir (snd (read_eeprom h addr)))) +
         push_bit 8 (ucast (byte2 (hid_ir (snd (read_eeprom h addr))))))
   \<and> wire (write_eeprom h addr d) = wire h @
     [OutReport \<lparr>byte0 = 0x80, byte1 = ucast (d AND 0xff), byte2 = ucast (drop_bit 8 d),
                 byte3 = 0xc0 OR word_of_int (addr AND 0x3f)\<rparr>]
   \<and> unat (word_of_int (addr AND 0x3f) :: u8) = nat (addr mod 64) \<and> nat (addr mod 64) < 64"
proof -
  have o: "(word_of_int (0x80 OR (addr AND 0x3f)) :: u8) = 0x80 OR word_of_int (addr AND 0x3f)"
       "(word_of_int (0xc0 OR (addr AND 0x3f)) :: u8) = 0xc0 OR word_of_int (addr AND 0x3f)"
    by (simp_all only: of_int_or_eq of_int_numeral)
  have r: "rcs h = [] \<longrightarrow> fst (read_eeprom h addr) =
         ucast (byte1 (hid_ir (snd (read_eeprom h addr)))) +
         push_bit 8 (ucast (byte2 (hid_ir (snd (read_eeprom h addr)))))"
    by (simp add: read_eeprom_ok word_bytes2)
  have b: "nat (addr mod 64) < 64" by simp
  show ?thesis
    using r b by (simp only: read_eeprom_wire write_eeprom_wire o low_byte unat_addr6)
qed

theorem eeprom_word_wire_encoding_witness:
  "rcs valid_dev = []
   \<and> fst (read_eeprom valid_dev 51) = 34329
   \<and> wire (snd (read_eeprom valid_dev 51)) =
       [OutReport \<lparr>byte0 = 0x80, byte1 = 0, byte2 = 0, byte3 = 0xb3\<rparr>, InReport]
   \<and> byte1 (hid_ir (snd (read_eeprom valid_dev 51))) = 0x19
   \<and> byte2 (hid_ir (snd (read_eeprom valid_dev 51))) = 0x86
   \<and> wire (write_eeprom valid_dev 62 0x6942) =
       [OutReport \<lparr>byte0 = 0x80, byte1 = 0x42, byte2 = 0x69, byte3 = 0xfe\<rparr>]"
proof -
  have r: "rcs valid_dev = []" and w: "wire valid_dev = []"
    by (simp_all add: valid_dev_def blank_dev_def)
  have e: "eeprom valid_dev 51 = 34329" by (simp add: valid_dev_def)
  from eeprom_word_wire_encoding [of valid_dev 51 "0x6942"]
    eeprom_word_wire_encoding [of valid_dev 62 "0x6942"] r
  show ?thesis by (simp add: w read_eeprom_ok e)
qed

lemma put_eeprom_rcs: "rcs h = [] \<Longrightarrow> rcs (snd (put_eeprom past h buf)) = []"
  unfolding put_eeprom_snd by (simp add: write_eeprom_rcs put_eeprom_loop_rcs)

lemma put_eeprom_cells:
  assumes "rcs h = []"
  shows "eeprom (snd (put_eeprom past h buf)) a =
     (if 51 \<le> a \<and> a < 63 then c_read past (buf[EEPROM_USER_MAGIC_ADDR := EEPROM_MAGIC]) (a - 51)
      else if a = 63 then
        c_read past
          (buf[EEPROM_USER_MAGIC_ADDR := EEPROM_MAGIC,
               EEPROM_USER_CS_ADDR := word_of_int (65535 -
                 uint (0xffff + sum_list (map (c_read past (buf[EEPROM_USER_MAGIC_ADDR := EEPROM_MAGIC]))
                    [51..<63])) + 1)])
          EEPROM_USER_CS_ADDR
      else eeprom h a)"
proof -
  let ?L = "put_eeprom_loop past (buf[EEPROM_USER_MAGIC_ADDR := EEPROM_MAGIC]) 51 0xffff h"
  have r: "rcs (snd (snd ?L)) = []" using assms by (rule put_eeprom_loop_rcs)
  have n: "nat (63 mod 64) = 63" by simp
  consider "51 \<le> a \<and> a < 63" | "a = 63" | "a < 51 \<or> 63 < a" by arith
  then show ?thesis
  proof cases
    case 1
    then have ne: "a \<noteq> nat (63 mod 64)" by simp
    have "eeprom (snd (put_eeprom past h buf)) a = eeprom (snd (snd ?L)) a"
      unfolding put_eeprom_snd by (rule write_eeprom_other [OF ne])
    also have "\<dots> = c_read past (buf[EEPROM_USER_MAGIC_ADDR := EEPROM_MAGIC]) (a - 51)"
      using assms 1 by (intro put_eeprom_loop_ok) simp_all
    finally show ?thesis using 1 by simp
  next
    case 2
    then show ?thesis
      unfolding put_eeprom_snd write_eeprom_ok [OF r] put_eeprom_loop_cs n by simp
  next
    case 3
    then have ne: "a \<noteq> nat (63 mod 64)" by auto
    have "eeprom (snd (put_eeprom past h buf)) a = eeprom (snd (snd ?L)) a"
      unfolding put_eeprom_snd by (rule write_eeprom_other [OF ne])
    also have "\<dots> = eeprom h a" using 3 by (intro put_eeprom_loop_other) auto
    finally show ?thesis using 3 by auto
  qed
qed

lemma eeprom_test_ok:
  assumes "rcs h = []"
  shows "eeprom_test h =
    (([''Success - EEPROM wrote 6942 hex, read 6942 hex''], 0),
     h\<lparr>wire := wire h @
         [OutReport \<lparr>byte0 = 0x80, byte1 = 0x42, byte2 = 0x69, byte3 = 0xfe\<rparr>,
          OutReport \<lparr>byte0 = 0x80, byte1 = 0, byte2 = 0, byte3 = 0xbe\<rparr>, InReport],
       eeprom := (eeprom h)(62 := 0x6942),
       hid_ir := (hid_ir h)\<lparr>byte1 := 0x42, byte2 := 0x69\<rparr>\<rparr>)"
  using assms
  by (simp add: eeprom_test_def write_eeprom_ok read_eeprom_ok EEPROM_START_ADDR_def
      EEPROM_USER_SPARE_def hex4_def hexdigit_def)

lemma get_eeprom_loop_buf:
  "rcs h = [] \<Longrightarrow> 51 \<le> i \<Longrightarrow> k < length buf \<Longrightarrow>
   fst (snd (get_eeprom_loop i cs buf h)) ! k =
     (if i \<le> k + 51 \<and> k + 51 < 64 then eeprom h (k + 51) else buf ! k)"
proof (induction i cs buf h rule: get_eeprom_loop.induct)
  case (1 i cs buf handle)
  show ?case
  proof (cases "i \<le> EEPROM_START_ADDR + EEPROM_USER_CS_ADDR")
    case True
    then have i: "i < 64" by (simp add: EEPROM_START_ADDR_def EEPROM_USER_CS_ADDR_def)
    define h1 where "h1 = snd (read_eeprom handle (int i))"
    have r: "read_eeprom handle (int i) = (eeprom handle i, h1)"
      using 1(2) i by (simp add: h1_def read_eeprom_ok)
    have h1: "rcs h1 = []" "eeprom h1 = eeprom handle"
      using 1(2) i by (simp_all add: h1_def read_eeprom_ok)
    have k: "k < length (buf[i - EEPROM_START_ADDR := eeprom handle i])" using 1(4) by simp
    have i1: "51 \<le> i + 1" using 1(3) by simp
    note ih = "1.IH" [OF True refl r [symmetric] h1(1) i1 k]
    show ?thesis
      using ih True 1(3,4) i
      by (subst get_eeprom_loop.simps)
         (auto simp add: r h1 EEPROM_START_ADDR_def nth_list_update)
  next
    case False
    then have "64 \<le> i" by (simp add: EEPROM_START_ADDR_def EEPROM_USER_CS_ADDR_def)
    with False show ?thesis by (subst get_eeprom_loop.simps) auto
  qed
qed

text \<open>
  Claim C10. On a device whose transfers succeed, \<open>eeprom_test\<close> changes exactly one
  cell: 0x6942 goes to address 62 and every other cell, the checksum word at 63 among
  them, stays as it was; the only write command on the wire addresses 62. Hence a user
  segment whose checksum was 0 before the test, with a spare word other than 0x6942,
  has a checksum other than 0 afterwards.
\<close>

theorem eeprom_test_writes_spare_only:
  assumes "rcs h = []"
  shows "eeprom (snd (eeprom_test h)) = (eeprom h)(62 := 0x6942)
    \<and> write_addrs (wire (snd (eeprom_test h))) = write_addrs (wire h) @ [62]
    \<and> (fst (get_eeprom h buf) = 0 \<and> eeprom h 62 \<noteq> 0x6942
         \<longrightarrow> fst (get_eeprom (snd (eeprom_test h)) buf') \<noteq> 0)"
proof -
  let ?h = "snd (eeprom_test h)"
  have e: "eeprom ?h = (eeprom h)(62 := 0x6942)" and r: "rcs ?h = []"
    using assms by (simp_all add: eeprom_test_ok)
  have w: "write_addrs (wire ?h) = write_addrs (wire h) @ [62]"
    using assms by (simp add: eeprom_test_ok write_addrs_append) (simp add: write_addrs_def)
  have c: "fst (get_eeprom ?h buf') = fst (get_eeprom h buf) + (0x6942 - eeprom h 62)"
    by (simp add: get_eeprom_cs [OF r] get_eeprom_cs [OF assms] e upt_51_64)
  have "fst (get_eeprom ?h buf') \<noteq> 0" if "fst (get_eeprom h buf) = 0" "eeprom h 62 \<noteq> 0x6942"
    using that unfolding c by simp
  with e w show ?thesis by blast
qed

theorem eeprom_test_writes_spare_only_witness:
  "rcs valid_dev = [] \<and> fst (get_eeprom valid_dev []) = 0 \<and> eeprom valid_dev 62 \<noteq> 0x6942
   \<and> fst (get_eeprom (snd (eeprom_test valid_dev)) []) \<noteq> 0
   \<and> eeprom (snd (eeprom_test valid_dev)) 62 = 0x6942
   \<and> eeprom (snd (eeprom_test valid_dev)) 63 = 31208"
proof -
  have r: "rcs valid_dev = []" by (simp add: valid_dev_def blank_dev_def)
  have c: "fst (get_eeprom valid_dev []) = 0"
    by (simp add: get_eeprom_cs [OF r] upt_51_64) (simp add: valid_dev_def)
  have s: "eeprom valid_dev 62 \<noteq> 0x6942" by (simp add: valid_dev_def)
  from eeprom_test_writes_spare_only [OF r, of "[]" "[]"] r c s show ?thesis
    by (simp add: valid_dev_def)
qed

text \<open>
  The checksum a user-segment read returns after a user-segment write, for any image of
  at least 13 words: the sum of the twelve words written, less the sum of the twelve
  words \<open>buf[51..62]\<close> that \<open>put_eeprom\<close> added up instead.
\<close>

lemma put_get_checksum:
  assumes "rcs h = []" and "13 \<le> length buf"
  shows "fst (get_eeprom (snd (put_eeprom past h buf)) b) =
     sum_list (take 12 (buf[EEPROM_USER_MAGIC_ADDR := EEPROM_MAGIC]))
     - sum_list (map (c_read past (buf[EEPROM_USER_MAGIC_ADDR := EEPROM_MAGIC])) [51..<63])"
proof -
  let ?b = "buf[EEPROM_USER_MAGIC_ADDR := EEPROM_MAGIC]"
  let ?S = "sum_list (map (c_read past ?b) [51..<63])"
  have r: "rcs (snd (put_eeprom past h buf)) = []" using assms(1) by (rule put_eeprom_rcs)
  have l: "length ?b = length buf" by simp
  have t: "take 12 ?b = map (\<lambda>k. c_read past ?b k) [0..<12]"
    using assms(2) by (intro nth_equalityI) (simp_all add: c_read_def)
  have u: "[0..<12] = [0, 1, 2, 3, 4, 5, 6, 7, 8, 9, 10, 11 :: nat]" by code_simp
  have w: "(word_of_int (65535 - uint (0xffff + ?S) + 1) :: u16) = - (0xffff + ?S)"
    by simp
  show ?thesis
    unfolding get_eeprom_cs [OF r] upt_51_64 t u
    using assms(2)
    by (simp add: put_eeprom_cells [OF assms(1)] w c_read_def EEPROM_USER_CS_ADDR_def
        EEPROM_USER_MAGIC_ADDR_def del: upt_rec_numeral)
qed

text \<open>
  Claim C1, at the input \<open>eeprom_init\<close> gives \<open>put_eeprom\<close> (an all-zero image in a
  buffer of 64 words) on a blank device: the user-segment read that follows returns the
  checksum 34329, not 0. The magic word reads back as 34329, and word 63 was written as
  1: \<open>put_eeprom\<close> summed \<open>buf[51..62]\<close>, not the twelve words it wrote.
\<close>

theorem eeprom_init_roundtrip_checksum:
  "fst (get_eeprom (eeprom_init (\<lambda>i. 0) blank_dev) (replicate 13 0)) = 34329
   \<and> fst (snd (get_eeprom (eeprom_init (\<lambda>i. 0) blank_dev) (replicate 13 0))) ! 0 = EEPROM_MAGIC
   \<and> eeprom (eeprom_init (\<lambda>i. 0) blank_dev) 63 = 1"
proof -
  have r0: "rcs blank_dev = []" by (simp add: blank_dev_def)
  have r: "rcs (eeprom_init (\<lambda>i. 0) blank_dev) = []"
    by (simp add: eeprom_init_def put_eeprom_rcs r0)
  have cells: "eeprom (eeprom_init (\<lambda>i. 0) blank_dev) a =
      (if a = 51 then 34329 else if a = 63 then 1 else 0)" for a
    unfolding eeprom_init_def put_eeprom_cells [OF r0] upt_51_63
    by (simp add: c_read_def EEPROM_USER_MAGIC_ADDR_def EEPROM_MAGIC_def EEPROM_USER_CS_ADDR_def
        blank_dev_def nth_list_update)
  have a: "fst (get_eeprom (eeprom_init (\<lambda>i. 0) blank_dev) (replicate 13 0)) = 34329"
    by (simp add: get_eeprom_cs [OF r] upt_51_64 cells)
  have b: "fst (snd (get_eeprom (eeprom_init (\<lambda>i. 0) blank_dev) (replicate 13 0))) ! 0 = EEPROM_MAGIC"
    unfolding get_eeprom_def EEPROM_START_ADDR_def
    by (subst get_eeprom_loop_buf [OF r]) (simp_all add: cells EEPROM_MAGIC_def)
  from a b cells [of 63] show ?thesis by simp
qed


section \<open>Manufacturer segment\<close>

lemma sizeof_tbl: "sizeof_cm119b_manufacturer_data = 102"
  by (simp add: sizeof_cm119b_manufacturer_data_def cm119b_manufacturer_data_def)

lemma put_eeprom_mfg_loop_wire:
  "wire (put_eeprom_mfg_loop past i h) = wire h @
        map (\<lambda>j. OutReport \<lparr>byte0 = 0x80, byte1 = ucast (c_read past cm119b_manufacturer_data j),
                 byte2 = ucast (drop_bit 8 (c_read past cm119b_manufacturer_data j)),
                 byte3 = word_of_int (0xc0 OR (int j AND 0x3f))\<rparr>) [i..<102]"
proof (induction past i h rule: put_eeprom_mfg_loop.induct)
  case (1 past i handle)
  show ?case
  proof (cases "i < sizeof_cm119b_manufacturer_data")
    case True
    then have i: "i < 102" by (simp add: sizeof_tbl)
    have u: "[i..<102] = i # [i + 1..<102]" using i by (simp add: upt_conv_Cons)
    from "1.IH" [OF True] True show ?thesis
      by (subst put_eeprom_mfg_loop.simps) (simp add: u write_eeprom_wire)
  next
    case False
    then have "[i..<102] = []" by (simp add: sizeof_tbl)
    with False show ?thesis by (subst put_eeprom_mfg_loop.simps) simp
  qed
qed

lemma write_addrs_frames_mod:
  "write_addrs (map (\<lambda>j. OutReport \<lparr>byte0 = 0x80, byte1 = lo j, byte2 = hi j,
      byte3 = word_of_int (0xc0 OR (int j AND 0x3f))\<rparr>) js) = map (\<lambda>j. j mod 64) js"
  by (induction js)
     (simp_all add: write_addrs_def write_addr_frame nat_mod_distrib del: write_addr.simps)

lemma upt_0_102: "map (\<lambda>j. j mod 64) [0..<102] = [0..<64] @ [0..<38]"
  by code_simp

lemma main_case_M_gate:
  "devproductid \<noteq> C119B_PRODUCT_ID \<Longrightarrow> snd (main_case_M past devproductid h) = h"
  by (simp add: main_case_M_def)

lemma main_switch_key_M: "main_switch_key (CHR ''M'') = CHR ''m''"
  by code_simp

lemma main_switch_key_never_M: "main_switch_key c0 \<noteq> CHR ''M''"
proof (cases "isupper c0")
  case True
  then have "(of_char (main_switch_key c0) :: nat) = of_char c0 + 32"
    by (simp add: main_switch_key_def tolower_def isupper_def)
  moreover have "(of_char (CHR ''M'') :: nat) = 77" by simp
  ultimately show ?thesis using True by (auto simp add: isupper_def)
next
  case False
  then have "c0 \<noteq> CHR ''M''" by (auto simp add: isupper_def)
  with False show ?thesis by (simp add: main_switch_key_def)
qed

lemma set_outputs_read_eeprom:
  "eeprom (set_outputs h \<lparr>byte0 = 0x80, byte1 = 0, byte2 = 0,
      byte3 = word_of_int (0x80 OR (addr AND 0x3f))\<rparr>) = eeprom h"
  by (simp add: set_outputs_def usb_control_msg_set_def next_rc_def hid_set_report_def
      addr6_80 split: list.splits)

lemma read_eeprom_eeprom: "eeprom (snd (read_eeprom h addr)) = eeprom h"
  by (simp add: read_eeprom_def get_inputs_eeprom set_outputs_read_eeprom split: prod.splits)
     (metis get_inputs_eeprom set_outputs_read_eeprom snd_conv)

lemma read_eeprom_write_addrs:
  "write_addrs (wire (snd (read_eeprom h addr))) = write_addrs (wire h)"
  by (simp add: read_eeprom_wire write_addrs_def map_filter_def addr6_80)

lemma get_eeprom_dump_loop_eeprom:
  "eeprom (snd (get_eeprom_dump_loop i buf h)) = eeprom h"
proof (induction i buf h rule: get_eeprom_dump_loop.induct)
  case (1 i buf handle)
  show ?case
  proof (cases "i < 64")
    case True
    obtain w h1 where r: "read_eeprom handle (int i) = (w, h1)" by (cases "read_eeprom handle (int i)")
    have e: "eeprom h1 = eeprom handle" using read_eeprom_eeprom [of handle "int i"] by (simp add: r)
    from "1.IH" [OF True r [symmetric] refl] True show ?thesis
      by (subst get_eeprom_dump_loop.simps) (simp add: r e)
  next
    case False
    then show ?thesis by (subst get_eeprom_dump_loop.simps) simp
  qed
qed

lemma get_eeprom_dump_loop_write_addrs:
  "write_addrs (wire (snd (get_eeprom_dump_loop i buf h))) = write_addrs (wire h)"
proof (induction i buf h rule: get_eeprom_dump_loop.induct)
  case (1 i buf handle)
  show ?case
  proof (cases "i < 64")
    case True
    obtain w h1 where r: "read_eeprom handle (int i) = (w, h1)" by (cases "read_eeprom handle (int i)")
    have e: "write_addrs (wire h1) = write_addrs (wire handle)"
      using read_eeprom_write_addrs [of handle "int i"] by (simp add: r)
    from "1.IH" [OF True r [symmetric] refl] True show ?thesis
      by (subst get_eeprom_dump_loop.simps) (simp add: r e)
  next
    case False
    then show ?thesis by (subst get_eeprom_dump_loop.simps) simp
  qed
qed

lemma get_eeprom_dump_loop_wire_length:
  "length (wire (snd (get_eeprom_dump_loop i buf h))) = length (wire h) + 2 * (64 - i)"
proof (induction i buf h rule: get_eeprom_dump_loop.induct)
  case (1 i buf handle)
  show ?case
  proof (cases "i < 64")
    case True
    obtain w h1 where r: "read_eeprom handle (int i) = (w, h1)" by (cases "read_eeprom handle (int i)")
    have e: "length (wire h1) = length (wire handle) + 2"
      using read_eeprom_wire [of handle "int i"] by (simp add: r)
    from "1.IH" [OF True r [symmetric] refl] True show ?thesis
      by (subst get_eeprom_dump_loop.simps) (simp add: r e)
  next
    case False
    then show ?thesis by (subst get_eeprom_dump_loop.simps) simp
  qed
qed

lemma put_eeprom_mfg_data_addrs:
  "write_addrs (wire (snd (put_eeprom_mfg_data past h)))
     = write_addrs (wire h) @ [0..<64] @ [0..<38]"
  unfolding put_eeprom_mfg_data_def snd_conv put_eeprom_mfg_loop_wire write_addrs_append
    write_addrs_frames_mod upt_0_102 ..

text \<open>
  Claim C2. The menu offers \<open>M - write manufacturer settings (CM119B)\<close>, and the write
  is \<open>put_eeprom_mfg_data\<close>, called from the branch \<open>case 'M'\<close> of \<open>main\<close> only. On a
  CM-119B, for every device state, a line that starts with \<open>M\<close> is switched on as \<open>m\<close>:
  the pass runs \<open>eeprom_list_manufacturer\<close>, which submits the 128 transfers of 64 reads,
  no write command, and leaves every cell of the EEPROM as it was. The table is not
  written.
\<close>

theorem menu_key_M_writes_nothing:
  "main_switch_key (CHR ''M'') = CHR ''m''
   \<and> main_pass dt C119B_PRODUCT_ID past (CHR ''M'') h = snd (eeprom_list_manufacturer h)
   \<and> write_addrs (wire (main_pass dt C119B_PRODUCT_ID past (CHR ''M'') h)) = write_addrs (wire h)
   \<and> length (wire (main_pass dt C119B_PRODUCT_ID past (CHR ''M'') h)) = length (wire h) + 128
   \<and> eeprom (main_pass dt C119B_PRODUCT_ID past (CHR ''M'') h) = eeprom h"
proof -
  have k: "main_switch_key (CHR ''M'') = CHR ''m''" by code_simp
  have p: "main_pass dt C119B_PRODUCT_ID past (CHR ''M'') h = snd (eeprom_list_manufacturer h)"
    by (simp add: main_pass_def k)
  have w: "write_addrs (wire (snd (eeprom_list_manufacturer h))) = write_addrs (wire h)"
    by (simp add: eeprom_list_manufacturer_def get_eeprom_dump_def get_eeprom_dump_loop_write_addrs)
  have l: "length (wire (snd (eeprom_list_manufacturer h))) = length (wire h) + 128"
    by (simp add: eeprom_list_manufacturer_def get_eeprom_dump_def get_eeprom_dump_loop_wire_length)
  have e: "eeprom (snd (eeprom_list_manufacturer h)) = eeprom h"
    by (simp add: eeprom_list_manufacturer_def get_eeprom_dump_def get_eeprom_dump_loop_eeprom)
  from k p w l e show ?thesis by simp
qed


section \<open>GPIO decode and the digital loopback test\<close>

lemma bit_int_2: "bit (2 :: int) n \<longleftrightarrow> n = 1"
proof -
  have "(2 :: int) = push_bit 1 (mask 1)" by (simp add: mask_eq_exp_minus_1)
  then have "bit (2 :: int) n \<longleftrightarrow> bit (push_bit 1 (mask 1) :: int) n" by (simp only:)
  also have "\<dots> \<longleftrightarrow> n = 1"
    by (simp only: bit_push_bit_iff bit_mask_iff) auto
  finally show ?thesis .
qed

lemma bit_int_16: "bit (16 :: int) n \<longleftrightarrow> n = 4"
proof -
  have "(16 :: int) = push_bit 4 (mask 1)" by (simp add: mask_eq_exp_minus_1)
  then have "bit (16 :: int) n \<longleftrightarrow> bit (push_bit 4 (mask 1) :: int) n" by (simp only:)
  also have "\<dots> \<longleftrightarrow> n = 4"
    by (simp only: bit_push_bit_iff bit_mask_iff) auto
  finally show ?thesis .
qed

lemma bit_int_253: "bit (253 :: int) n \<longleftrightarrow> n < 8 \<and> n \<noteq> 1"
proof -
  have "(253 :: int) = mask 8 XOR 2" by (simp add: mask_eq_exp_minus_1)
  then have "bit (253 :: int) n \<longleftrightarrow> bit (mask 8 XOR 2 :: int) n" by (simp only:)
  also have "\<dots> \<longleftrightarrow> n < 8 \<and> n \<noteq> 1"
    by (simp only: bit_xor_iff bit_mask_iff bit_int_2) auto
  finally show ?thesis .
qed

lemma bit_u16_2: "bit (2 :: u16) n \<longleftrightarrow> n = 1"
proof -
  have "(2 :: u16) = word_of_int 2" by simp
  then show ?thesis by (auto simp only: bit_word_of_int_iff bit_int_2) simp_all
qed

lemma bit_u16_253: "bit (253 :: u16) n \<longleftrightarrow> n < 8 \<and> n \<noteq> 1"
proof -
  have "(253 :: u16) = word_of_int 253" by simp
  then show ?thesis by (auto simp only: bit_word_of_int_iff bit_int_253) simp_all
qed

lemma bit_u8_16: "bit (16 :: u8) n \<longleftrightarrow> n = 4"
proof -
  have "(16 :: u8) = word_of_int 16" by simp
  then show ?thesis by (auto simp only: bit_word_of_int_iff bit_int_16) simp_all
qed

lemma and_16_zero: "(b :: u8) AND 0x10 = 0 \<longleftrightarrow> \<not> bit b 4"
proof
  assume "b AND 0x10 = 0"
  then have "\<not> bit (b AND 0x10) 4" by simp
  then show "\<not> bit b 4" by (simp add: bit_simps bit_u8_16)
next
  assume "\<not> bit b 4"
  then show "b AND 0x10 = 0"
    by (intro bit_word_eqI) (auto simp add: bit_simps bit_u8_16 bit_int_16)
qed

lemma getin_c1:
  "(ucast (b1 AND 0xf :: u8) :: u16) + push_bit 4 (ucast (b0 AND 3 :: u8))
   = ucast (b1 AND mask 4) OR push_bit 4 (ucast (b0 AND mask 2))"
proof -
  have m: "(0xf :: u8) = mask 4" "(3 :: u8) = mask 2" by (simp_all add: mask_eq_exp_minus_1)
  show ?thesis unfolding m
    by (rule disjunctive_add_eq_or, rule bit_word_eqI) (auto simp add: bit_simps)
qed

lemma getin_c2:
  "(ucast (b1 AND mask 4 :: u8) OR push_bit 4 (ucast (b0 AND mask 2 :: u8)) :: u16) + ucast (b1 AND 0xc0)
   = (ucast (b1 AND mask 4) OR push_bit 4 (ucast (b0 AND mask 2))) OR ucast (b1 AND 0xc0)"
  by (rule disjunctive_add_eq_or, rule bit_word_eqI) (auto simp add: bit_simps bit_consts)

lemma getin_c3: "((c :: u16) AND 0xfd) + 2 = (c AND 0xfd) OR 2"
  by (rule disjunctive_add_eq_or, rule bit_word_eqI) (auto simp add: bit_simps bit_u16_2 bit_u16_253)

lemma getin_decode_bits:
  "(bit (getin_decode dt r) 0 \<longleftrightarrow> bit (byte1 r) 0)
 \<and> (bit (getin_decode dt r) 1 \<longleftrightarrow> (if dt = DEV_C108AH then \<not> bit (byte0 r) 4 else bit (byte1 r) 1))
 \<and> (bit (getin_decode dt r) 2 \<longleftrightarrow> bit (byte1 r) 2)
 \<and> (bit (getin_decode dt r) 3 \<longleftrightarrow> bit (byte1 r) 3)
 \<and> (bit (getin_decode dt r) 4 \<longleftrightarrow> bit (byte0 r) 0)
 \<and> (bit (getin_decode dt r) 5 \<longleftrightarrow> bit (byte0 r) 1)
 \<and> (bit (getin_decode dt r) 6 \<longleftrightarrow> dt = DEV_C119 \<and> bit (byte1 r) 6)
 \<and> (bit (getin_decode dt r) 7 \<longleftrightarrow> dt = DEV_C119 \<and> bit (byte1 r) 7)"
  by (cases dt)
     (simp_all add: getin_decode_def Let_def getin_c1 getin_c2 getin_c3 and_16_zero
        bit_simps bit_consts bit_u16_2 bit_u16_253)

lemma getin_ok: "rcs h = [] \<Longrightarrow> getin dt h = (getin_decode dt (hid_ir h), h\<lparr>wire := wire h @ [InReport]\<rparr>)"
  by (simp add: getin_def get_inputs_ok)

text \<open>
  Claim C9. When the transfer succeeds, the byte \<open>getin\<close> returns has bits 0 to 3 from
  the low nibble of byte 1 of the input report and bits 4 and 5 from bits 0 and 1 of
  byte 0; bits 6 and 7 are those of byte 1 on the CM119 and 0 otherwise; on the CM108AH
  bit 1 is the inverse of bit 4 of byte 0, whatever byte 1 holds.
\<close>

theorem getin_decodes_report:
  assumes "rcs h = []"
  shows "(bit (fst (getin dt h)) 0 \<longleftrightarrow> bit (byte1 (hid_ir h)) 0)
 \<and> (bit (fst (getin dt h)) 1 \<longleftrightarrow>
      (if dt = DEV_C108AH then \<not> bit (byte0 (hid_ir h)) 4 else bit (byte1 (hid_ir h)) 1))
 \<and> (bit (fst (getin dt h)) 2 \<longleftrightarrow> bit (byte1 (hid_ir h)) 2)
 \<and> (bit (fst (getin dt h)) 3 \<longleftrightarrow> bit (byte1 (hid_ir h)) 3)
 \<and> (bit (fst (getin dt h)) 4 \<longleftrightarrow> bit (byte0 (hid_ir h)) 0)
 \<and> (bit (fst (getin dt h)) 5 \<longleftrightarrow> bit (byte0 (hid_ir h)) 1)
 \<and> (bit (fst (getin dt h)) 6 \<longleftrightarrow> dt = DEV_C119 \<and> bit (byte1 (hid_ir h)) 6)
 \<and> (bit (fst (getin dt h)) 7 \<longleftrightarrow> dt = DEV_C119 \<and> bit (byte1 (hid_ir h)) 7)"
  unfolding getin_ok [OF assms] fst_conv by (rule getin_decode_bits)

theorem getin_decodes_report_witness:
  "rcs hook_dev = [] \<and> fst (getin DEV_C108AH hook_dev) = 0x2f
   \<and> bit (fst (getin DEV_C108AH hook_dev)) 1 \<and> \<not> bit (byte0 (hid_ir hook_dev)) 4
   \<and> \<not> bit (fst (getin DEV_C108AH hook_dev)) 6 \<and> bit (byte1 (hid_ir hook_dev)) 6"
proof -
  have r: "rcs hook_dev = []" by (simp add: hook_dev_def blank_dev_def)
  have g: "fst (getin DEV_C108AH hook_dev) = 0x2f"
    by (simp add: getin_ok [OF r] getin_decode_def) (simp add: hook_dev_def)
  have b: "\<not> bit (byte0 (hid_ir hook_dev)) 4" "bit (byte1 (hid_ir hook_dev)) 6"
    by (simp_all add: hook_dev_def blank_dev_def)
  from getin_decodes_report [OF r, of DEV_C108AH] r g b show ?thesis by simp
qed

lemma dioerror_blind_0x20: "dioerror (should XOR 0x20) should = ([], 0)"
proof -
  have "(should XOR 0x20) XOR should = 0x20" by (simp add: xor.commute xor.left_commute)
  then show ?thesis by (simp add: dioerror_def)
qed

text \<open>
  A mismatch on bit 0x80 alone, the pair \<open>digital_test\<close> calls GPIO6 -> GPIO8, is
  counted and printed under the name of bit 0x40.
\<close>

lemma dioerror_0x80_name:
  "dioerror 0 0x80 = ([''Error on GPIO5/GPIO7, got 0, should be 1''], 1)"
  by (simp add: dioerror_def baboons_def)

text \<open>
  Claim C3, at a readback with GPIO2 and COR both set while pattern 0x9 is driven and
  0x2 expected: the masked readback is 0x22, one relevant bit (0x20) differs from the
  expected pattern, and \<open>testio\<close> prints nothing and counts 0 errors.
\<close>

theorem testio_misses_cor_mismatch:
  "fst (getin DEV_C108 (setout DEV_C108 cor_dev 9)) AND 0xf2 = 0x22
   \<and> fst (testio DEV_C108 cor_dev 9 2) = ([], 0)"
proof -
  have r: "rcs cor_dev = []" by (simp add: cor_dev_def blank_dev_def)
  have s: "setout DEV_C108 cor_dev 9 =
     cor_dev\<lparr>wire := [OutReport \<lparr>byte0 = 0, byte1 = 9, byte2 = 0xd, byte3 = 0\<rparr>],
       hid_ir := \<lparr>byte0 = 0x02, byte1 = 0x02, byte2 = 0, byte3 = 0\<rparr>\<rparr>"
    by (simp add: setout_def set_outputs_ok [OF r] hid_set_report_def) (simp add: cor_dev_def blank_dev_def)
  have g: "fst (getin DEV_C108 (setout DEV_C108 cor_dev 9)) = 0x22"
    unfolding s by (subst getin_ok) (simp_all add: r getin_decode_def)
  have t: "fst (testio DEV_C108 cor_dev 9 2) = dioerror (fst (getin DEV_C108 (setout DEV_C108 cor_dev 9)) AND 0xf2) 2"
    by (simp add: testio_def split_def Let_def)
  show ?thesis unfolding t g by (simp add: dioerror_def)
qed

lemma digital_test_passes_without_cor:
  "fst (digital_test DEV_C108 no_cor_dev) =
     ([''Testing digital I/O (PTT,COR,TONE and GPIO)....'', ''Digital I/O passed!!''], 0)"
  by (simp add: digital_test_def testio_step_def testio_def setout_def getin_def set_outputs_ok
      get_inputs_ok hid_set_report_def getin_decode_def dioerror_def no_cor_dev_def blank_dev_def
      blank_report_def Let_def)


section \<open>Failed transfers\<close>

text \<open>
  Claim C4, as stated, fails: a transfer that fails and one that succeeds can hand the
  caller the very same result. On the blank device, \<open>get_inputs\<close> returns the same buffer
  and handle whether \<open>usb_control_msg\<close> returned -1 or 4, and so does \<open>set_outputs\<close>.
\<close>

theorem transfer_failure_indistinguishable:
  "fst (usb_control_msg_get failing_dev blank_report) < 0
   \<and> 0 \<le> fst (usb_control_msg_get blank_dev blank_report)
   \<and> get_inputs failing_dev blank_report = get_inputs blank_dev blank_report
   \<and> fst (usb_control_msg_set failing_dev \<lparr>byte0 = 0, byte1 = 8, byte2 = 0xd, byte3 = 0\<rparr>) < 0
   \<and> 0 \<le> fst (usb_control_msg_set blank_dev \<lparr>byte0 = 0, byte1 = 8, byte2 = 0xd, byte3 = 0\<rparr>)
   \<and> set_outputs failing_dev \<lparr>byte0 = 0, byte1 = 8, byte2 = 0xd, byte3 = 0\<rparr>
       = set_outputs blank_dev \<lparr>byte0 = 0, byte1 = 8, byte2 = 0xd, byte3 = 0\<rparr>"
  by (simp add: failing_dev_def blank_dev_def blank_report_def usb_control_msg_get_def
      usb_control_msg_set_def get_inputs_def set_outputs_def next_rc_def hid_set_report_def)

text \<open>
  Claim C4, amended. \<open>set_outputs\<close> and \<open>get_inputs\<close> submit exactly one control transfer
  per call and use up one return code of \<open>usb_control_msg\<close> (no retry), and that return
  code is not handed on: what the caller gets is the effect of the transfer alone, so two
  transfers with the same effect give the caller the same result, whatever
  \<open>usb_control_msg\<close> returned for each.
\<close>

theorem transport_drops_status:
  "length (wire (set_outputs h out)) = length (wire h) + 1
   \<and> length (wire (snd (get_inputs h buf))) = length (wire h) + 1
   \<and> rcs (set_outputs h out) = tl (rcs h)
   \<and> rcs (snd (get_inputs h buf)) = tl (rcs h)
   \<and> (snd (usb_control_msg_set h out) = snd (usb_control_msg_set h' out')
        \<longrightarrow> set_outputs h out = set_outputs h' out')
   \<and> (snd (usb_control_msg_get h buf) = snd (usb_control_msg_get h' buf')
        \<longrightarrow> get_inputs h buf = get_inputs h' buf')"
proof -
  have a: "length (wire (set_outputs h out)) = length (wire h) + 1"
    by (simp add: set_outputs_wire)
  have b: "length (wire (snd (get_inputs h buf))) = length (wire h) + 1"
    by (simp add: get_inputs_wire)
  have c: "rcs (set_outputs h out) = tl (rcs h)"
    by (simp add: set_outputs_def usb_control_msg_set_def next_rc_def hid_set_report_def
        split: list.splits)
  have d: "rcs (snd (get_inputs h buf)) = tl (rcs h)"
    by (simp add: get_inputs_def usb_control_msg_get_def next_rc_def split: list.splits)
  have e: "snd (usb_control_msg_set h out) = snd (usb_control_msg_set h' out')
        \<longrightarrow> set_outputs h out = set_outputs h' out'"
    by (simp add: set_outputs_def)
  have f: "snd (usb_control_msg_get h buf) = snd (usb_control_msg_get h' buf')
        \<longrightarrow> get_inputs h buf = get_inputs h' buf'"
    by (simp add: get_inputs_def)
  from a b c d e f show ?thesis by blast
qed

theorem transport_drops_status_witness:
  "fst (usb_control_msg_set failing_dev blank_report) = - 1
   \<and> fst (usb_control_msg_set blank_dev blank_report) = 4
   \<and> snd (usb_control_msg_set failing_dev blank_report) = snd (usb_control_msg_set blank_dev blank_report)
   \<and> set_outputs failing_dev blank_report = set_outputs blank_dev blank_report
   \<and> fst (usb_control_msg_get failing_dev blank_report) = - 1
   \<and> fst (usb_control_msg_get blank_dev blank_report) = 4
   \<and> snd (usb_control_msg_get failing_dev blank_report) = snd (usb_control_msg_get blank_dev blank_report)
   \<and> get_inputs failing_dev blank_report = get_inputs blank_dev blank_report
   \<and> length (wire (set_outputs failing_dev blank_report)) = 1
   \<and> rcs (set_outputs failing_dev blank_report) = []"
proof -
  have s: "snd (usb_control_msg_set failing_dev blank_report) = snd (usb_control_msg_set blank_dev blank_report)"
    by (simp add: failing_dev_def blank_dev_def blank_report_def usb_control_msg_set_def
        next_rc_def hid_set_report_def)
  have g: "snd (usb_control_msg_get failing_dev blank_report) = snd (usb_control_msg_get blank_dev blank_report)"
    by (simp add: failing_dev_def blank_dev_def blank_report_def usb_control_msg_get_def next_rc_def)
  have r: "fst (usb_control_msg_set failing_dev blank_report) = - 1"
      "fst (usb_control_msg_set blank_dev blank_report) = 4"
      "fst (usb_control_msg_get failing_dev blank_report) = - 1"
      "fst (usb_control_msg_get blank_dev blank_report) = 4"
    by (simp_all add: failing_dev_def blank_dev_def usb_control_msg_set_def
        usb_control_msg_get_def next_rc_def)
  have w: "wire failing_dev = []" "rcs failing_dev = [- 1]"
    by (simp_all add: failing_dev_def blank_dev_def)
  note t = transport_drops_status [of failing_dev blank_report blank_report blank_dev
      blank_report blank_report]
  have t1: "length (wire (set_outputs failing_dev blank_report)) = 1" using t w by simp
  have t2: "rcs (set_outputs failing_dev blank_report) = []" using t w by simp
  have t3: "set_outputs failing_dev blank_report = set_outputs blank_dev blank_report"
    using t s by blast
  have t4: "get_inputs failing_dev blank_report = get_inputs blank_dev blank_report"
    using t g by blast
  from t1 t2 t3 t4 s g r show ?thesis by blast
qed


section \<open>Synthesizer: the samples of a block\<close>





lemma outaudio_channel_None: "outaudio_channel ops dt None t = (0, t)"
  by (simp add: outaudio_channel_def)

lemma outaudio_loop_length:
  "length (fst (outaudio_loop ops dt dd1 dd2 i buf t1 t2)) = length buf"
proof (induction ops dt dd1 dd2 i buf t1 t2 rule: outaudio_loop.induct)
  case (1 ops dt dd1 dd2 i buf t1 t2)
  show ?case
  proof (cases "i < AUDIO_SAMPLES_PER_BLOCK * 2")
    case True
    obtain v1 t1' where c1: "outaudio_channel ops dt dd1 t1 = (v1, t1')"
      by (cases "outaudio_channel ops dt dd1 t1")
    obtain v2 t2' where c2: "outaudio_channel ops dt dd2 t2 = (v2, t2')"
      by (cases "outaudio_channel ops dt dd2 t2")
    from "1.IH" [OF True c1 [symmetric] refl c2 [symmetric] refl] True show ?thesis
      by (subst outaudio_loop.simps) (simp add: c1 c2)
  next
    case False
    then show ?thesis by (subst outaudio_loop.simps) simp
  qed
qed













section \<open>Analyzer: the band of a target and its level\<close>







text \<open>
  For a target that is a whole number of hertz no bin center lies exactly 1.5 bin widths
  away, so that \<open>within\<close> read as \<open><\<close> and as \<open>\<le>\<close> give the same bins.
\<close>

lemma band_edge_whole_hz: "\<bar>bin_center i - real_of_int n\<bar> \<noteq> 1.5 * 46.875"
proof
  assume e: "\<bar>bin_center i - real_of_int n\<bar> = 1.5 * 46.875"
  have "bin_center i - real_of_int n = real_of_int (750 * int i - 16 * n) / 16"
    by (simp add: bin_center_def)
  with e have "\<bar>real_of_int (750 * int i - 16 * n)\<bar> = real_of_int 1125" by simp
  then have "\<bar>750 * int i - 16 * n\<bar> = 1125"
    by (simp only: of_int_abs [symmetric] of_int_eq_iff)
  moreover have "even (750 * int i - 16 * n)" by simp
  ultimately have "even (1125 :: int)" by (metis even_abs_add_iff add_0_right abs_zero)
  then show False by simp
qed






end
